theory Spec2Isabelle
  imports Main "HOL-Library.AList"
begin

section \<open>Strings as Python uses them\<close>

text \<open>
  A Python \<open>str\<close> is modelled as a \<open>string\<close> of ASCII characters. The helpers below are
  the built-in string operations that \<open>config.py\<close> calls: \<open>str.lower\<close>, \<open>str.strip\<close>,
  \<open>str.split(",")\<close> and \<open>int(str)\<close>.
\<close>

definition is_upper :: "char \<Rightarrow> bool" where
  "is_upper c = (let n = (of_char c :: nat) in 65 \<le> n \<and> n \<le> 90)"

definition to_lower :: "char \<Rightarrow> char" where
  "to_lower c = (if is_upper c then char_of ((of_char c :: nat) + 32) else c)"

definition lower :: "string \<Rightarrow> string" where
  "lower s = map to_lower s"

definition is_space :: "char \<Rightarrow> bool" where
  \<comment> \<open>the ASCII characters for which \<open>str.isspace\<close> holds: TAB..CR, FS..US and the blank\<close>
  "is_space c = (let n = (of_char c :: nat) in (9 \<le> n \<and> n \<le> 13) \<or> (28 \<le> n \<and> n \<le> 32))"

definition strip :: "string \<Rightarrow> string" where
  "strip s = rev (dropWhile is_space (rev (dropWhile is_space s)))"

fun split_on :: "char \<Rightarrow> string \<Rightarrow> string list" where
  "split_on c [] = [[]]"
| "split_on c (x # xs) =
     (if x = c then [] # split_on c xs
      else (case split_on c xs of y # ys \<Rightarrow> (x # y) # ys | [] \<Rightarrow> [[x]]))"

definition is_digit :: "char \<Rightarrow> bool" where
  "is_digit c = (let n = (of_char c :: nat) in 48 \<le> n \<and> n \<le> 57)"

definition digit_val :: "char \<Rightarrow> int" where
  "digit_val c = int (of_char c) - 48"

text \<open>
  The body of a decimal literal as \<open>int()\<close> accepts it: digits, with single underscores
  allowed between two digits. The flag says whether the previous character was a digit.
\<close>

fun digits_us :: "bool \<Rightarrow> string \<Rightarrow> bool" where
  "digits_us prev [] = prev"
| "digits_us prev (c # cs) =
     (if is_digit c then digits_us True cs
      else if c = CHR ''_'' \<and> prev then digits_us False cs
      else False)"

definition unsigned_part :: "string \<Rightarrow> string" where
  "unsigned_part t =
     (case t of [] \<Rightarrow> []
      | c # r \<Rightarrow> if c = CHR ''-'' \<or> c = CHR ''+'' then r else t)"

definition is_negative :: "string \<Rightarrow> bool" where
  "is_negative t = (case t of [] \<Rightarrow> False | c # r \<Rightarrow> c = CHR ''-'')"

definition numeric_string :: "string \<Rightarrow> bool" where
  \<comment> \<open>surrounding whitespace, an optional sign, then the digits\<close>
  "numeric_string s = digits_us False (unsigned_part (strip s))"

definition int_max_str_digits :: nat where
  \<comment> \<open>\<open>sys.int_max_str_digits\<close>: longer literals make \<open>int()\<close> raise ValueError\<close>
  "int_max_str_digits = 4300"

definition py_int :: "string \<Rightarrow> int option" where
  \<comment> \<open>\<open>int(value)\<close>; None stands for ValueError\<close>
  "py_int s =
     (let t = strip s;
          ds = filter is_digit (unsigned_part t)
      in if numeric_string s \<and> length ds \<le> int_max_str_digits
         then Some ((if is_negative t then - 1 else 1) * foldl (\<lambda>a c. 10 * a + digit_val c) 0 ds)
         else None)"

section \<open>Enumerations (enums.py)\<close>

datatype TimeFormat = TWELVE_HOUR | TWENTY_FOUR_HOUR

datatype DisplayMode = NORMAL | COMPACT

datatype ThemeType = DEFAULT | DARK | LIGHT | ACCESSIBILITY | MINIMAL

fun TimeFormat_value :: "TimeFormat \<Rightarrow> string" where
  "TimeFormat_value TWELVE_HOUR = ''12h''"
| "TimeFormat_value TWENTY_FOUR_HOUR = ''24h''"

fun DisplayMode_value :: "DisplayMode \<Rightarrow> string" where
  "DisplayMode_value NORMAL = ''normal''"
| "DisplayMode_value COMPACT = ''compact''"

fun ThemeType_value :: "ThemeType \<Rightarrow> string" where
  "ThemeType_value DEFAULT = ''default''"
| "ThemeType_value DARK = ''dark''"
| "ThemeType_value LIGHT = ''light''"
| "ThemeType_value ACCESSIBILITY = ''accessibility''"
| "ThemeType_value MINIMAL = ''minimal''"

text \<open>Calling the enum class on a string looks the member up by value; None is ValueError.\<close>

definition TimeFormat_of :: "string \<Rightarrow> TimeFormat option" where
  "TimeFormat_of s =
     (if s = ''12h'' then Some TWELVE_HOUR
      else if s = ''24h'' then Some TWENTY_FOUR_HOUR else None)"

definition DisplayMode_of :: "string \<Rightarrow> DisplayMode option" where
  "DisplayMode_of s =
     (if s = ''normal'' then Some NORMAL
      else if s = ''compact'' then Some COMPACT else None)"

definition ThemeType_of :: "string \<Rightarrow> ThemeType option" where
  "ThemeType_of s =
     (if s = ''default'' then Some DEFAULT
      else if s = ''dark'' then Some DARK
      else if s = ''light'' then Some LIGHT
      else if s = ''accessibility'' then Some ACCESSIBILITY
      else if s = ''minimal'' then Some MINIMAL else None)"

section \<open>Paths, values and the world outside\<close>

text \<open>
  A \<open>pathlib.Path\<close> is modelled by the string it is built from; \<open>path_str\<close> is \<open>str(p)\<close>.
  (pathlib also collapses repeated separators; two paths that are equal here are equal
  there.)
\<close>

datatype path = Path string

fun path_str :: "path \<Rightarrow> string" where
  "path_str (Path s) = s"


definition joinpath :: "path \<Rightarrow> string \<Rightarrow> path" where
  \<comment> \<open>the \<open>/\<close> operator of pathlib with a relative right operand\<close>
  "joinpath p c = Path (path_str p @ ''/'' @ c)"

text \<open>
  The values a configuration dictionary holds: what \<open>yaml.safe_load\<close> returns (None,
  booleans, integers, strings, lists, string-keyed dictionaries) and what the override
  code stores (paths and enum members; a value read from a file is never one of these).
  A dictionary is an association list: lookup is
  \<open>map_of\<close>, item assignment is \<open>AList.update\<close>, which keeps the position of an existing
  key and appends a new one, as a Python dict does.
\<close>

datatype pyval =
    VNone
  | VBool bool
  | VInt int
  | VStr string
  | VPath path
  | VTimeFormat TimeFormat
  | VDisplayMode DisplayMode
  | VList "pyval list"
  | VDict "(string \<times> pyval) list"

type_synonym pydict = "(string \<times> pyval) list"

fun truthy :: "pyval \<Rightarrow> bool" where
  "truthy VNone = False"
| "truthy (VBool b) = b"
| "truthy (VInt n) = (n \<noteq> 0)"
| "truthy (VStr s) = (s \<noteq> [])"
| "truthy (VPath p) = True"
| "truthy (VTimeFormat t) = True"
| "truthy (VDisplayMode m) = True"
| "truthy (VList xs) = (xs \<noteq> [])"
| "truthy (VDict d) = (d \<noteq> [])"

datatype exn = ValidationError "string list list" | TypeError | AttributeError | OSError

text \<open>
  The file system as the code observes it. An existence, directory or resolve query
  returns None when the call raises PermissionError or OSError. \<open>safe_load\<close> is the
  outcome of opening a path, decoding it as UTF-8 and parsing it as YAML. \<open>mkdir_ok\<close>
  says whether \<open>mkdir(parents=True, exist_ok=True)\<close> succeeds on a path, and
  \<open>can_write\<close> whether the directories of a file can be created and the file opened
  for writing.
\<close>

datatype read_result = OpenFailed | UnicodeDecodeError | YAMLError | Loaded pyval

record fs =
  path_exists :: "path \<Rightarrow> bool option"
  path_is_dir :: "path \<Rightarrow> bool option"
  path_resolve :: "path \<Rightarrow> string option"
  safe_load :: "path \<Rightarrow> read_result"
  mkdir_ok :: "path \<Rightarrow> bool"
  can_write :: "path \<Rightarrow> bool"

text \<open>
  The process environment and the functions of \<open>xdg_dirs\<close>, which is not among the
  sources: they are parameters of the model. \<open>migrate_legacy_config\<close> returns whether it
  copied the legacy file, and the file system after the call.
\<close>

record sys =
  getenv :: "string \<Rightarrow> string option"
  home :: path
  get_cache_dir :: path
  get_config_file_path :: path
  get_legacy_config_paths :: "path list"
  migrate_legacy_config :: "fs \<Rightarrow> path \<Rightarrow> bool \<times> fs"

subsection \<open>Path expansion\<close>

text \<open>
  Modelled from the spec: \<open>utils.expand_path\<close> is not among the sources. The spec (4.3)
  says it expands a leading home-directory alias and any embedded environment-variable
  reference \<open>$VAR\<close> into their values and returns the result as a path, without requiring
  the path to exist and without making it absolute; a reference to an unset variable is
  left as it is. The alias is expanded first, the variables second, each in one pass.
\<close>

definition is_word_char :: "char \<Rightarrow> bool" where
  "is_word_char c =
     (let n = (of_char c :: nat)
      in is_digit c \<or> (65 \<le> n \<and> n \<le> 90) \<or> (97 \<le> n \<and> n \<le> 122) \<or> c = CHR ''_'')"

definition expanduser :: "sys \<Rightarrow> string \<Rightarrow> string" where
  "expanduser sy s =
     (if s = ''~'' \<or> take 2 s = ''~/'' then path_str (home sy) @ tl s else s)"

function expandvars :: "(string \<Rightarrow> string option) \<Rightarrow> string \<Rightarrow> string" where
  "expandvars env [] = []"
| "expandvars env (c # cs) =
     (if c = CHR ''$'' \<and> takeWhile is_word_char cs \<noteq> []
      then (case env (takeWhile is_word_char cs) of
              Some v \<Rightarrow> v
            | None \<Rightarrow> c # takeWhile is_word_char cs)
           @ expandvars env (dropWhile is_word_char cs)
      else c # expandvars env cs)"
  by pat_completeness auto
termination
  by (relation "measure (\<lambda>(env, s). length s)")
     (auto simp: length_dropWhile_le less_Suc_eq_le)

definition expand_path :: "sys \<Rightarrow> string \<Rightarrow> path" where
  "expand_path sy s = Path (expandvars (getenv sy) (expanduser sy s))"

section \<open>Field coercion of environment strings\<close>

definition parse_int_value :: "string \<Rightarrow> int option" where
  "parse_int_value v = py_int v"

definition parse_bool_value :: "string \<Rightarrow> bool" where
  "parse_bool_value v = (lower v \<in> set [''true'', ''1'', ''yes'', ''on''])"

definition parse_time_format_value :: "string \<Rightarrow> TimeFormat option" where
  "parse_time_format_value v = TimeFormat_of v"

definition parse_display_mode_value :: "string \<Rightarrow> DisplayMode option" where
  "parse_display_mode_value v = DisplayMode_of v"

definition parse_prefix_list_value :: "string \<Rightarrow> string list" where
  "parse_prefix_list_value v = filter (\<lambda>p. p \<noteq> []) (map strip (split_on CHR '','' v))"

definition int_fields :: "string list" where
  "int_fields = [''polling_interval'', ''token_limit'', ''refresh_interval'',
                 ''cooldown_minutes'', ''recent_activity_window_hours'']"

definition bool_fields :: "string list" where
  "bool_fields = [''disable_cache'', ''notify_on_block_completion'', ''show_progress_bars'',
                  ''show_active_sessions'', ''update_in_place'', ''aggregate_by_project'',
                  ''show_tool_usage'', ''show_pricing'']"

definition parse_env_value :: "sys \<Rightarrow> string \<Rightarrow> string \<Rightarrow> pyval option" where
  \<comment> \<open>the result None is Python's None: the override is not applied\<close>
  "parse_env_value sy v config_key =
     (if config_key \<in> set int_fields then map_option VInt (parse_int_value v)
      else if config_key \<in> set [''projects_dir'', ''cache_dir'']
        then Some (VPath (expand_path sy v))
      else if config_key \<in> set bool_fields then Some (VBool (parse_bool_value v))
      else if config_key = ''time_format''
        then map_option VTimeFormat (parse_time_format_value v)
      else if config_key = ''display_mode''
        then map_option VDisplayMode (parse_display_mode_value v)
      else if config_key = ''project_name_prefixes''
        then Some (VList (map VStr (parse_prefix_list_value v)))
      else Some (VStr v))"

section \<open>Environment overrides\<close>

definition env_nonempty :: "sys \<Rightarrow> string \<Rightarrow> string option" where
  \<comment> \<open>\<open>if value := os.getenv(env_var)\<close>: an unset and an empty variable are both skipped\<close>
  "env_nonempty sy env_var =
     (case getenv sy env_var of None \<Rightarrow> None | Some v \<Rightarrow> if v = [] then None else Some v)"

definition env_override :: "sys \<Rightarrow> string \<Rightarrow> string \<Rightarrow> pyval option" where
  \<comment> \<open>the value one pair of a mapping table assigns, if it assigns one\<close>
  "env_override sy env_var config_key =
     (case env_nonempty sy env_var of
        None \<Rightarrow> None
      | Some v \<Rightarrow> parse_env_value sy v config_key)"

fun apply_env_overrides :: "sys \<Rightarrow> pydict \<Rightarrow> (string \<times> string) list \<Rightarrow> pydict" where
  "apply_env_overrides sy d [] = d"
| "apply_env_overrides sy d ((env_var, config_key) # rest) =
     apply_env_overrides sy
       (case env_override sy env_var config_key of
          None \<Rightarrow> d
        | Some v \<Rightarrow> AList.update config_key v d)
       rest"

fun override_for :: "sys \<Rightarrow> (string \<times> string) list \<Rightarrow> string \<Rightarrow> pyval option" where
  \<comment> \<open>the value that a pass over a mapping table leaves under a key, when it assigns one:
      the last assignment to the key\<close>
  "override_for sy [] k = None"
| "override_for sy ((env_var, config_key) # rest) k =
     (case override_for sy rest k of
        Some v \<Rightarrow> Some v
      | None \<Rightarrow> if config_key = k then env_override sy env_var config_key else None)"

definition assigns_any :: "sys \<Rightarrow> (string \<times> string) list \<Rightarrow> bool" where
  \<comment> \<open>some pair of the table reaches its item assignment\<close>
  "assigns_any sy env_mapping =
     list_ex (\<lambda>(env_var, config_key). env_override sy env_var config_key \<noteq> None) env_mapping"

definition apply_nested_env_overrides ::
  "sys \<Rightarrow> pydict \<Rightarrow> string \<Rightarrow> (string \<times> string) list \<Rightarrow> exn + pydict" where
  \<comment> \<open>\<open>section_dict\<close> is the section's own dictionary when the key is present (the loop
      mutates it in place) and a fresh one otherwise; item assignment on a value that is
      not a dictionary raises TypeError\<close>
  "apply_nested_env_overrides sy d section_name env_mapping =
     (case map_of d section_name of
        None \<Rightarrow>
          (let section_dict = apply_env_overrides sy [] env_mapping
           in Inr (if section_dict \<noteq> [] then AList.update section_name (VDict section_dict) d
                   else d))
      | Some (VDict sd) \<Rightarrow>
          Inr (AList.update section_name (VDict (apply_env_overrides sy sd env_mapping)) d)
      | Some other \<Rightarrow>
          (if assigns_any sy env_mapping then Inl TypeError else Inr d))"

definition get_top_level_env_mapping :: "(string \<times> string) list" where
  "get_top_level_env_mapping =
     [(''PAR_CC_USAGE_PROJECTS_DIR'', ''projects_dir''),
      (''PAR_CC_USAGE_POLLING_INTERVAL'', ''polling_interval''),
      (''PAR_CC_USAGE_TIMEZONE'', ''timezone''),
      (''PAR_CC_USAGE_TOKEN_LIMIT'', ''token_limit''),
      (''PAR_CC_USAGE_CACHE_DIR'', ''cache_dir''),
      (''PAR_CC_USAGE_DISABLE_CACHE'', ''disable_cache''),
      (''PAR_CC_USAGE_RECENT_ACTIVITY_WINDOW_HOURS'', ''recent_activity_window_hours'')]"

definition get_display_env_mapping :: "(string \<times> string) list" where
  "get_display_env_mapping =
     [(''PAR_CC_USAGE_SHOW_PROGRESS_BARS'', ''show_progress_bars''),
      (''PAR_CC_USAGE_SHOW_ACTIVE_SESSIONS'', ''show_active_sessions''),
      (''PAR_CC_USAGE_UPDATE_IN_PLACE'', ''update_in_place''),
      (''PAR_CC_USAGE_REFRESH_INTERVAL'', ''refresh_interval''),
      (''PAR_CC_USAGE_TIME_FORMAT'', ''time_format''),
      (''PAR_CC_USAGE_PROJECT_NAME_PREFIXES'', ''project_name_prefixes''),
      (''PAR_CC_USAGE_SHOW_TOOL_USAGE'', ''show_tool_usage''),
      (''PAR_CC_USAGE_DISPLAY_MODE'', ''display_mode''),
      (''PAR_CC_USAGE_SHOW_PRICING'', ''show_pricing''),
      (''PAR_CC_USAGE_THEME'', ''theme'')]"

definition get_notification_env_mapping :: "(string \<times> string) list" where
  "get_notification_env_mapping =
     [(''PAR_CC_USAGE_DISCORD_WEBHOOK_URL'', ''discord_webhook_url''),
      (''PAR_CC_USAGE_SLACK_WEBHOOK_URL'', ''slack_webhook_url''),
      (''PAR_CC_USAGE_NOTIFY_ON_BLOCK_COMPLETION'', ''notify_on_block_completion''),
      (''PAR_CC_USAGE_COOLDOWN_MINUTES'', ''cooldown_minutes'')]"

definition claude_config_dirs :: "string \<Rightarrow> path list" where
  \<comment> \<open>\<open>[Path(p.strip()) for p in claude_dirs.split(",") if p.strip()]\<close>\<close>
  "claude_config_dirs claude_dirs =
     map (\<lambda>p. Path (strip p)) (filter (\<lambda>p. strip p \<noteq> []) (split_on CHR '','' claude_dirs))"

definition apply_claude_config_dir_override :: "sys \<Rightarrow> pydict \<Rightarrow> pydict" where
  "apply_claude_config_dir_override sy d =
     (case env_nonempty sy ''CLAUDE_CONFIG_DIR'' of
        None \<Rightarrow> d
      | Some claude_dirs \<Rightarrow>
          AList.update ''projects_dirs'' (VList (map VPath (claude_config_dirs claude_dirs))) d)"

section \<open>Loading the configuration file\<close>

definition path_field_names :: "string list" where
  "path_field_names = [''projects_dir'', ''cache_dir'']"

definition expand_field :: "sys \<Rightarrow> pydict \<Rightarrow> string \<Rightarrow> pydict" where
  "expand_field sy d field =
     (case map_of d field of
        Some (VStr s) \<Rightarrow> AList.update field (VPath (expand_path sy s)) d
      | _ \<Rightarrow> d)"

fun is_infix :: "string \<Rightarrow> string \<Rightarrow> bool" where
  "is_infix xs [] = (xs = [])"
| "is_infix xs (y # ys) = (take (length xs) (y # ys) = xs \<or> is_infix xs ys)"

definition expand_paths_in_config :: "sys \<Rightarrow> pyval \<Rightarrow> exn + pyval" where
  \<comment> \<open>on a dictionary, the two path fields are expanded. \<open>field in config_dict\<close> is a
      substring test on a string and a membership test on a list, and raises TypeError on
      a value that is not a container; where it holds, \<open>config_dict[field]\<close> raises
      TypeError on a string and on a list\<close>
  "expand_paths_in_config sy config_dict =
     (case config_dict of
        VDict d \<Rightarrow> Inr (VDict (foldl (expand_field sy) d path_field_names))
      | VStr s \<Rightarrow>
          if list_ex (\<lambda>field. is_infix field s) path_field_names then Inl TypeError
          else Inr config_dict
      | VList xs \<Rightarrow>
          if list_ex (\<lambda>field. VStr field \<in> set xs) path_field_names then Inl TypeError
          else Inr config_dict
      | _ \<Rightarrow> Inl TypeError)"

fun migrate_first :: "sys \<Rightarrow> fs \<Rightarrow> path \<Rightarrow> path list \<Rightarrow> path \<times> fs" where
  \<comment> \<open>the loop over the legacy paths: it stops at the first one that is migrated and
      continues with the canonical location\<close>
  "migrate_first sy f config_file [] = (config_file, f)"
| "migrate_first sy f config_file (legacy_path # rest) =
     (case migrate_legacy_config sy f legacy_path of
        (True, f') \<Rightarrow> (get_config_file_path sy, f')
      | (False, f') \<Rightarrow> migrate_first sy f' config_file rest)"

definition locate_config_file :: "sys \<Rightarrow> fs \<Rightarrow> path option \<Rightarrow> path \<times> fs" where
  \<comment> \<open>the first half of \<open>_load_config_file\<close>: the file to read and the file system after
      the migration step; an existence check that raises skips the migration\<close>
  "locate_config_file sy f config_file =
     (let cf = (case config_file of None \<Rightarrow> get_config_file_path sy | Some p \<Rightarrow> p);
          config_exists = (case path_exists f cf of None \<Rightarrow> True | Some b \<Rightarrow> b)
      in if \<not> config_exists then migrate_first sy f cf (get_legacy_config_paths sy)
         else (cf, f))"

definition read_config_file :: "sys \<Rightarrow> fs \<Rightarrow> path \<Rightarrow> exn + pyval" where
  \<comment> \<open>the second half: the guarded existence check, read and parse\<close>
  "read_config_file sy f cf =
     (case path_exists f cf of
        None \<Rightarrow> Inr (VDict [])
      | Some False \<Rightarrow> Inr (VDict [])
      | Some True \<Rightarrow>
          (case safe_load f cf of
             OpenFailed \<Rightarrow> Inr (VDict [])
           | UnicodeDecodeError \<Rightarrow> Inr (VDict [])
           | YAMLError \<Rightarrow> Inr (VDict [])
           | Loaded v \<Rightarrow> expand_paths_in_config sy (if truthy v then v else VDict [])))"

definition load_config_file :: "sys \<Rightarrow> fs \<Rightarrow> path option \<Rightarrow> (exn + pyval) \<times> fs" where
  \<comment> \<open>the result, and the file system the migration step leaves behind\<close>
  "load_config_file sy f config_file =
     (case locate_config_file sy f config_file of
        (cf, f') \<Rightarrow> (read_config_file sy f' cf, f'))"

section \<open>The schema and its validation\<close>

record DisplayConfig =
  show_progress_bars :: bool
  show_active_sessions :: bool
  update_in_place :: bool
  refresh_interval :: int
  time_format :: TimeFormat
  project_name_prefixes :: "string list"
  aggregate_by_project :: bool
  show_tool_usage :: bool
  display_mode :: DisplayMode
  show_pricing :: bool
  theme :: ThemeType

record NotificationConfig =
  discord_webhook_url :: "string option"
  slack_webhook_url :: "string option"
  notify_on_block_completion :: bool
  cooldown_minutes :: int

record Config =
  projects_dir :: path
  projects_dirs :: "path list option"
  polling_interval :: int
  timezone :: string
  token_limit :: "int option"
  cache_dir :: path
  disable_cache :: bool
  display :: DisplayConfig
  notifications :: NotificationConfig
  recent_activity_window_hours :: int

definition default_DisplayConfig :: DisplayConfig where
  "default_DisplayConfig =
     \<lparr>show_progress_bars = True, show_active_sessions = False, update_in_place = True,
      refresh_interval = 1, time_format = TWENTY_FOUR_HOUR,
      project_name_prefixes = [''-Users-'', ''-home-''], aggregate_by_project = True,
      show_tool_usage = False, display_mode = NORMAL, show_pricing = False,
      theme = DEFAULT\<rparr>"

definition default_NotificationConfig :: NotificationConfig where
  "default_NotificationConfig =
     \<lparr>discord_webhook_url = None, slack_webhook_url = None,
      notify_on_block_completion = True, cooldown_minutes = 5\<rparr>"

definition default_projects_dir :: "sys \<Rightarrow> path" where
  "default_projects_dir sy = joinpath (joinpath (home sy) ''.claude'') ''projects''"

text \<open>
  The classes are pydantic models. Constructing one validates every declared field that
  the keyword arguments supply, in the library's default (lax) mode, takes the default for
  every field they do not supply, ignores every other keyword, and raises one
  ValidationError that lists the location of every value that failed. A validator
  returns the field's value or the locations of the failures below the value (\<open>[[]]\<close>
  for the value itself).
\<close>

type_synonym 'a validated = "string list list + 'a"

fun v_int :: "pyval \<Rightarrow> int validated" where
  "v_int (VInt n) = Inr n"
| "v_int (VBool b) = Inr (if b then 1 else 0)"
| "v_int (VStr s) = (case py_int s of Some n \<Rightarrow> Inr n | None \<Rightarrow> Inl [[]])"
| "v_int v = Inl [[]]"

fun v_bool :: "pyval \<Rightarrow> bool validated" where
  "v_bool (VBool b) = Inr b"
| "v_bool (VInt n) = (if n = 1 then Inr True else if n = 0 then Inr False else Inl [[]])"
| "v_bool (VStr s) =
     (if lower s \<in> set [''1'', ''on'', ''t'', ''true'', ''y'', ''yes''] then Inr True
      else if lower s \<in> set [''0'', ''off'', ''f'', ''false'', ''n'', ''no''] then Inr False
      else Inl [[]])"
| "v_bool v = Inl [[]]"

fun v_str :: "pyval \<Rightarrow> string validated" where
  "v_str (VStr s) = Inr s"
| "v_str (VTimeFormat t) = Inr (TimeFormat_value t)"
| "v_str (VDisplayMode m) = Inr (DisplayMode_value m)"
| "v_str v = Inl [[]]"

fun v_path :: "pyval \<Rightarrow> path validated" where
  "v_path (VPath p) = Inr p"
| "v_path (VStr s) = Inr (Path s)"
| "v_path v = Inl [[]]"

fun v_time_format :: "pyval \<Rightarrow> TimeFormat validated" where
  "v_time_format (VTimeFormat t) = Inr t"
| "v_time_format (VStr s) = (case TimeFormat_of s of Some t \<Rightarrow> Inr t | None \<Rightarrow> Inl [[]])"
| "v_time_format v = Inl [[]]"

fun v_display_mode :: "pyval \<Rightarrow> DisplayMode validated" where
  "v_display_mode (VDisplayMode m) = Inr m"
| "v_display_mode (VStr s) = (case DisplayMode_of s of Some m \<Rightarrow> Inr m | None \<Rightarrow> Inl [[]])"
| "v_display_mode v = Inl [[]]"

fun v_theme :: "pyval \<Rightarrow> ThemeType validated" where
  "v_theme (VStr s) = (case ThemeType_of s of Some t \<Rightarrow> Inr t | None \<Rightarrow> Inl [[]])"
| "v_theme v = Inl [[]]"

fun v_opt :: "(pyval \<Rightarrow> 'a validated) \<Rightarrow> pyval \<Rightarrow> 'a option validated" where
  "v_opt v VNone = Inr None"
| "v_opt v x = (case v x of Inl e \<Rightarrow> Inl e | Inr y \<Rightarrow> Inr (Some y))"

fun all_valid :: "'a validated list \<Rightarrow> 'a list validated" where
  "all_valid [] = Inr []"
| "all_valid (r # rs) =
     (case r of
        Inl e \<Rightarrow> Inl [[]]
      | Inr y \<Rightarrow> (case all_valid rs of Inl e \<Rightarrow> Inl e | Inr ys \<Rightarrow> Inr (y # ys)))"

fun v_list :: "(pyval \<Rightarrow> 'a validated) \<Rightarrow> pyval \<Rightarrow> 'a list validated" where
  "v_list v (VList xs) = all_valid (map v xs)"
| "v_list v x = Inl [[]]"

definition field_errors :: "pydict \<Rightarrow> string \<Rightarrow> (pyval \<Rightarrow> 'a validated) \<Rightarrow> string list list" where
  \<comment> \<open>the failures of one field, each located below the field's name\<close>
  "field_errors d k v =
     (case map_of d k of
        None \<Rightarrow> []
      | Some x \<Rightarrow> (case v x of Inl locs \<Rightarrow> map ((#) k) locs | Inr y \<Rightarrow> []))"

definition field_value :: "pydict \<Rightarrow> string \<Rightarrow> (pyval \<Rightarrow> 'a validated) \<Rightarrow> 'a \<Rightarrow> 'a" where
  \<comment> \<open>the value of one field: the default when the key is missing, the validated value
      otherwise; it is only read when the field has no failure\<close>
  "field_value d k v dflt =
     (case map_of d k of
        None \<Rightarrow> dflt
      | Some x \<Rightarrow> (case v x of Inr y \<Rightarrow> y | Inl locs \<Rightarrow> undefined))"

definition DisplayConfig_errors :: "pydict \<Rightarrow> string list list" where
  "DisplayConfig_errors d =
     field_errors d ''show_progress_bars'' v_bool
     @ field_errors d ''show_active_sessions'' v_bool
     @ field_errors d ''update_in_place'' v_bool
     @ field_errors d ''refresh_interval'' v_int
     @ field_errors d ''time_format'' v_time_format
     @ field_errors d ''project_name_prefixes'' (v_list v_str)
     @ field_errors d ''aggregate_by_project'' v_bool
     @ field_errors d ''show_tool_usage'' v_bool
     @ field_errors d ''display_mode'' v_display_mode
     @ field_errors d ''show_pricing'' v_bool
     @ field_errors d ''theme'' v_theme"

definition DisplayConfig_fields :: "pydict \<Rightarrow> DisplayConfig" where
  "DisplayConfig_fields d =
     \<lparr>show_progress_bars = field_value d ''show_progress_bars'' v_bool True,
      show_active_sessions = field_value d ''show_active_sessions'' v_bool False,
      update_in_place = field_value d ''update_in_place'' v_bool True,
      refresh_interval = field_value d ''refresh_interval'' v_int 1,
      time_format = field_value d ''time_format'' v_time_format TWENTY_FOUR_HOUR,
      project_name_prefixes =
        field_value d ''project_name_prefixes'' (v_list v_str) [''-Users-'', ''-home-''],
      aggregate_by_project = field_value d ''aggregate_by_project'' v_bool True,
      show_tool_usage = field_value d ''show_tool_usage'' v_bool False,
      display_mode = field_value d ''display_mode'' v_display_mode NORMAL,
      show_pricing = field_value d ''show_pricing'' v_bool False,
      theme = field_value d ''theme'' v_theme DEFAULT\<rparr>"

definition v_DisplayConfig :: "pyval \<Rightarrow> DisplayConfig validated" where
  "v_DisplayConfig x =
     (case x of
        VDict d \<Rightarrow>
          if DisplayConfig_errors d = [] then Inr (DisplayConfig_fields d)
          else Inl (DisplayConfig_errors d)
      | _ \<Rightarrow> Inl [[]])"

definition NotificationConfig_errors :: "pydict \<Rightarrow> string list list" where
  "NotificationConfig_errors d =
     field_errors d ''discord_webhook_url'' (v_opt v_str)
     @ field_errors d ''slack_webhook_url'' (v_opt v_str)
     @ field_errors d ''notify_on_block_completion'' v_bool
     @ field_errors d ''cooldown_minutes'' v_int"

definition NotificationConfig_fields :: "pydict \<Rightarrow> NotificationConfig" where
  "NotificationConfig_fields d =
     \<lparr>discord_webhook_url = field_value d ''discord_webhook_url'' (v_opt v_str) None,
      slack_webhook_url = field_value d ''slack_webhook_url'' (v_opt v_str) None,
      notify_on_block_completion = field_value d ''notify_on_block_completion'' v_bool True,
      cooldown_minutes = field_value d ''cooldown_minutes'' v_int 5\<rparr>"

definition v_NotificationConfig :: "pyval \<Rightarrow> NotificationConfig validated" where
  "v_NotificationConfig x =
     (case x of
        VDict d \<Rightarrow>
          if NotificationConfig_errors d = [] then Inr (NotificationConfig_fields d)
          else Inl (NotificationConfig_errors d)
      | _ \<Rightarrow> Inl [[]])"

definition Config_errors :: "pydict \<Rightarrow> string list list" where
  "Config_errors d =
     field_errors d ''projects_dir'' v_path
     @ field_errors d ''projects_dirs'' (v_opt (v_list v_path))
     @ field_errors d ''polling_interval'' v_int
     @ field_errors d ''timezone'' v_str
     @ field_errors d ''token_limit'' (v_opt v_int)
     @ field_errors d ''cache_dir'' v_path
     @ field_errors d ''disable_cache'' v_bool
     @ field_errors d ''display'' v_DisplayConfig
     @ field_errors d ''notifications'' v_NotificationConfig
     @ field_errors d ''recent_activity_window_hours'' v_int"

definition Config_fields :: "sys \<Rightarrow> pydict \<Rightarrow> Config" where
  "Config_fields sy d =
     \<lparr>projects_dir = field_value d ''projects_dir'' v_path (default_projects_dir sy),
      projects_dirs = field_value d ''projects_dirs'' (v_opt (v_list v_path)) None,
      polling_interval = field_value d ''polling_interval'' v_int 5,
      timezone = field_value d ''timezone'' v_str ''America/Los_Angeles'',
      token_limit = field_value d ''token_limit'' (v_opt v_int) None,
      cache_dir = field_value d ''cache_dir'' v_path (get_cache_dir sy),
      disable_cache = field_value d ''disable_cache'' v_bool False,
      display = field_value d ''display'' v_DisplayConfig default_DisplayConfig,
      notifications =
        field_value d ''notifications'' v_NotificationConfig default_NotificationConfig,
      recent_activity_window_hours = field_value d ''recent_activity_window_hours'' v_int 5\<rparr>"

definition validate_Config :: "sys \<Rightarrow> pydict \<Rightarrow> exn + Config" where
  "validate_Config sy d =
     (if Config_errors d = [] then Inr (Config_fields sy d)
      else Inl (ValidationError (Config_errors d)))"

definition new_Config :: "sys \<Rightarrow> fs \<Rightarrow> pydict \<Rightarrow> exn + Config" where
  \<comment> \<open>\<open>Config(**config_dict)\<close>: validation, then \<open>model_post_init\<close> creates the cache
      directory, which raises OSError when it cannot\<close>
  "new_Config sy f d =
     (case validate_Config sy d of
        Inl e \<Rightarrow> Inl e
      | Inr c \<Rightarrow> if mkdir_ok f (cache_dir c) then Inr c else Inl OSError)"

section \<open>Resolution\<close>

definition merge_overrides :: "sys \<Rightarrow> pydict \<Rightarrow> exn + pydict" where
  \<comment> \<open>the four override calls of \<open>load_config\<close>, in its order\<close>
  "merge_overrides sy d =
     (let d1 = apply_claude_config_dir_override sy d;
          d2 = apply_env_overrides sy d1 get_top_level_env_mapping
      in case apply_nested_env_overrides sy d2 ''display'' get_display_env_mapping of
           Inl e \<Rightarrow> Inl e
         | Inr d3 \<Rightarrow>
             apply_nested_env_overrides sy d3 ''notifications'' get_notification_env_mapping)"

definition merged_config_dict :: "sys \<Rightarrow> fs \<Rightarrow> path option \<Rightarrow> (exn + pydict) \<times> fs" where
  \<comment> \<open>\<open>load_config\<close> up to its last line: the dictionary handed to the constructor. A
      loaded value that is not a dictionary fails at the first item assignment
      (TypeError) or, when no override assigns, at \<open>config_dict.get\<close> (AttributeError)\<close>
  "merged_config_dict sy f config_file =
     (case load_config_file sy f config_file of
        (Inl e, f') \<Rightarrow> (if e = OSError then merge_overrides sy [] else Inl e, f')
      | (Inr (VDict d), f') \<Rightarrow> (merge_overrides sy d, f')
      | (Inr other, f') \<Rightarrow>
          (Inl (if env_nonempty sy ''CLAUDE_CONFIG_DIR'' \<noteq> None
                   \<or> assigns_any sy get_top_level_env_mapping
                then TypeError else AttributeError), f'))"

definition load_config :: "sys \<Rightarrow> fs \<Rightarrow> path option \<Rightarrow> exn + Config" where
  "load_config sy f config_file =
     (case merged_config_dict sy f config_file of
        (Inl e, f') \<Rightarrow> Inl e
      | (Inr d, f') \<Rightarrow> new_Config sy f' d)"

section \<open>The directories to monitor\<close>

definition is_existing_dir :: "fs \<Rightarrow> path \<Rightarrow> exn + bool" where
  \<comment> \<open>\<open>path.exists() and path.is_dir()\<close>; the second call is made only after the first
      returned true\<close>
  "is_existing_dir f p =
     (case path_exists f p of
        None \<Rightarrow> Inl OSError
      | Some False \<Rightarrow> Inr False
      | Some True \<Rightarrow> (case path_is_dir f p of None \<Rightarrow> Inl OSError | Some b \<Rightarrow> Inr b))"

fun existing_dirs :: "fs \<Rightarrow> path list \<Rightarrow> exn + path list" where
  "existing_dirs f [] = Inr []"
| "existing_dirs f (p # ps) =
     (case is_existing_dir f p of
        Inl e \<Rightarrow> Inl e
      | Inr b \<Rightarrow>
          (case existing_dirs f ps of
             Inl e \<Rightarrow> Inl e
           | Inr r \<Rightarrow> Inr (if b then p # r else r)))"

definition default_paths :: "sys \<Rightarrow> path list" where
  "default_paths sy =
     [joinpath (joinpath (joinpath (home sy) ''.config'') ''claude'') ''projects'',
      joinpath (joinpath (home sy) ''.claude'') ''projects'']"

definition candidate_paths :: "sys \<Rightarrow> fs \<Rightarrow> Config \<Rightarrow> exn + path list" where
  \<comment> \<open>the first half of \<open>get_claude_paths\<close>; a path object is always truthy, so the single
      directory is added whenever no default exists\<close>
  "candidate_paths sy f c =
     (case projects_dirs c of
        Some (p # ps) \<Rightarrow> Inr (p # ps)
      | _ \<Rightarrow>
          (case existing_dirs f (default_paths sy) of
             Inl e \<Rightarrow> Inl e
           | Inr paths \<Rightarrow> Inr (if paths = [] then [projects_dir c] else paths)))"

fun dedup_valid :: "fs \<Rightarrow> string list \<Rightarrow> path list \<Rightarrow> exn + path list" where
  \<comment> \<open>the second loop, with the set \<open>seen\<close> as its state\<close>
  "dedup_valid f seen [] = Inr []"
| "dedup_valid f seen (p # ps) =
     (case path_resolve f p of
        None \<Rightarrow> Inl OSError
      | Some resolved \<Rightarrow>
          if resolved \<in> set seen then dedup_valid f seen ps
          else (case is_existing_dir f p of
                  Inl e \<Rightarrow> Inl e
                | Inr False \<Rightarrow> dedup_valid f seen ps
                | Inr True \<Rightarrow>
                    (case dedup_valid f (resolved # seen) ps of
                       Inl e \<Rightarrow> Inl e
                     | Inr r \<Rightarrow> Inr (p # r))))"

definition get_claude_paths :: "sys \<Rightarrow> fs \<Rightarrow> Config \<Rightarrow> exn + path list" where
  "get_claude_paths sy f c =
     (case candidate_paths sy f c of
        Inl e \<Rightarrow> Inl e
      | Inr paths \<Rightarrow> dedup_valid f [] paths)"

section \<open>Saving\<close>

definition opt_str :: "string option \<Rightarrow> pyval" where
  "opt_str x = (case x of None \<Rightarrow> VNone | Some s \<Rightarrow> VStr s)"

definition opt_int :: "int option \<Rightarrow> pyval" where
  "opt_int x = (case x of None \<Rightarrow> VNone | Some n \<Rightarrow> VInt n)"

definition save_dict :: "Config \<Rightarrow> pydict" where
  \<comment> \<open>the dictionary \<open>save_config\<close> builds and dumps\<close>
  "save_dict c =
     [(''projects_dir'', VStr (path_str (projects_dir c))),
      (''polling_interval'', VInt (polling_interval c)),
      (''timezone'', VStr (timezone c)),
      (''token_limit'', opt_int (token_limit c)),
      (''cache_dir'', VStr (path_str (cache_dir c))),
      (''display'', VDict
         [(''show_progress_bars'', VBool (show_progress_bars (display c))),
          (''show_active_sessions'', VBool (show_active_sessions (display c))),
          (''update_in_place'', VBool (update_in_place (display c))),
          (''refresh_interval'', VInt (refresh_interval (display c))),
          (''time_format'', VStr (TimeFormat_value (time_format (display c)))),
          (''project_name_prefixes'', VList (map VStr (project_name_prefixes (display c)))),
          (''display_mode'', VStr (DisplayMode_value (display_mode (display c)))),
          (''show_pricing'', VBool (show_pricing (display c)))]),
      (''notifications'', VDict
         [(''discord_webhook_url'', opt_str (discord_webhook_url (notifications c))),
          (''slack_webhook_url'', opt_str (slack_webhook_url (notifications c))),
          (''notify_on_block_completion'',
             VBool (notify_on_block_completion (notifications c))),
          (''cooldown_minutes'', VInt (cooldown_minutes (notifications c)))])]
     @ (case projects_dirs c of
          Some (p # ps) \<Rightarrow> [(''projects_dirs'', VList (map (\<lambda>q. VStr (path_str q)) (p # ps)))]
        | _ \<Rightarrow> [])"

definition save_config :: "fs \<Rightarrow> Config \<Rightarrow> path \<Rightarrow> exn + fs" where
  \<comment> \<open>creating the directories or opening the file for writing raises OSError when the
      file system refuses; otherwise the file exists afterwards and holds the dumped
      dictionary, which \<open>yaml.safe_load\<close> reads back as it was\<close>
  "save_config f c config_file =
     (if can_write f config_file
      then Inr (f\<lparr>path_exists := (path_exists f)(config_file := Some True),
                  safe_load := (safe_load f)(config_file := Loaded (VDict (save_dict c)))\<rparr>)
      else Inl OSError)"

section \<open>Notions used to state the properties\<close>

text \<open>
  Two characters agree up to case when they are equal or one is an upper-case letter and
  the other its lower-case form; two strings are equal up to case when they agree
  character by character.
\<close>

definition ci_char :: "char \<Rightarrow> char \<Rightarrow> bool" where
  "ci_char a b =
     (a = b \<or> (is_upper a \<and> (of_char b :: nat) = of_char a + 32)
            \<or> (is_upper b \<and> (of_char a :: nat) = of_char b + 32))"

definition ci_equal :: "string \<Rightarrow> string \<Rightarrow> bool" where
  "ci_equal s t = list_all2 ci_char s t"

definition section_of :: "pydict \<Rightarrow> string \<Rightarrow> pydict" where
  \<comment> \<open>the nested mapping a file gives for a section; empty when the file has none\<close>
  "section_of d s = (case map_of d s of Some (VDict sd) \<Rightarrow> sd | _ \<Rightarrow> [])"


definition resolve_field ::
  "(pyval \<Rightarrow> 'a validated) \<Rightarrow> 'a \<Rightarrow> pyval option \<Rightarrow> pyval option \<Rightarrow> 'a validated" where
  \<comment> \<open>precedence in the words of the specification: the coerced environment value when
      there is one, otherwise the file value when the key is present, otherwise the
      schema default; a value taken from a source is the one validation makes of it\<close>
  "resolve_field v dflt env_value file_value =
     (case env_value of
        Some x \<Rightarrow> v x
      | None \<Rightarrow> (case file_value of Some y \<Rightarrow> v y | None \<Rightarrow> Inr dflt))"

definition proper :: "(pyval \<Rightarrow> 'a validated) \<Rightarrow> bool" where
  \<comment> \<open>a validator that fails reports at least one location\<close>
  "proper v = (\<forall>x. v x \<noteq> Inl [])"

definition valid_dir :: "fs \<Rightarrow> path \<Rightarrow> bool" where
  "valid_dir f p = (path_exists f p = Some True \<and> path_is_dir f p = Some True)"

fun dedup_by :: "('a \<Rightarrow> 'k) \<Rightarrow> 'a list \<Rightarrow> 'a list" where
  \<comment> \<open>keep the first element of every key, in the order of first occurrence\<close>
  "dedup_by key [] = []"
| "dedup_by key (x # xs) = x # dedup_by key (filter (\<lambda>y. key y \<noteq> key x) xs)"

definition configured_dirs :: "Config \<Rightarrow> path list" where
  "configured_dirs c = (case projects_dirs c of None \<Rightarrow> [] | Some ps \<Rightarrow> ps)"

definition spec_candidates :: "sys \<Rightarrow> fs \<Rightarrow> Config \<Rightarrow> path list" where
  \<comment> \<open>the candidate set in the words of the specification (4.6, steps 1 to 3)\<close>
  "spec_candidates sy f c =
     (if configured_dirs c \<noteq> [] then configured_dirs c
      else if filter (valid_dir f) (default_paths sy) \<noteq> []
        then filter (valid_dir f) (default_paths sy)
      else [projects_dir c])"

definition answers :: "fs \<Rightarrow> bool" where
  \<comment> \<open>no existence, directory or resolve query raises\<close>
  "answers f =
     (\<forall>p. path_exists f p \<noteq> None \<and> path_is_dir f p \<noteq> None \<and> path_resolve f p \<noteq> None)"

definition no_overrides :: "sys \<Rightarrow> bool" where
  \<comment> \<open>no pair of the three tables assigns, and the directory-list variable is unset or empty\<close>
  "no_overrides sy =
     (list_all (\<lambda>(e, k). env_override sy e k = None)
        (get_top_level_env_mapping @ get_display_env_mapping @ get_notification_env_mapping)
      \<and> env_nonempty sy ''CLAUDE_CONFIG_DIR'' = None)"

definition reloaded :: "sys \<Rightarrow> Config \<Rightarrow> Config" where
  \<comment> \<open>what saving a configuration and loading the written file gives when no override is in
      force: the two path fields expanded again, an empty list read as unset, and the fields
      that are not written at their defaults\<close>
  "reloaded sy c0 =
     c0\<lparr>projects_dir := expand_path sy (path_str (projects_dir c0)),
        projects_dirs := (case projects_dirs c0 of Some (q # qs) \<Rightarrow> Some (q # qs) | _ \<Rightarrow> None),
        cache_dir := expand_path sy (path_str (cache_dir c0)),
        disable_cache := False,
        display := (display c0)\<lparr>aggregate_by_project := True, show_tool_usage := False,
                                 theme := DEFAULT\<rparr>,
        recent_activity_window_hours := 5\<rparr>"







section \<open>Example worlds\<close>

text \<open>
  A user \<open>u\<close> with an empty environment and a file system on which nothing exists yet
  and every directory can be created. The examples below vary them.
\<close>

definition sys0 :: sys where
  "sys0 =
     \<lparr>getenv = map_of [(''HOME'', ''/home/u'')],
      home = Path ''/home/u'',
      get_cache_dir = Path ''/home/u/.cache/par_cc_usage'',
      get_config_file_path = Path ''/home/u/.config/par_cc_usage/config.yaml'',
      get_legacy_config_paths = [Path ''/home/u/.par_cc_usage/config.yaml''],
      migrate_legacy_config = (\<lambda>f p. (False, f))\<rparr>"

definition fs0 :: fs where
  "fs0 =
     \<lparr>path_exists = (\<lambda>p. Some False),
      path_is_dir = (\<lambda>p. Some False),
      path_resolve = (\<lambda>p. Some (path_str p)),
      safe_load = (\<lambda>p. OpenFailed),
      mkdir_ok = (\<lambda>p. True),
      can_write = (\<lambda>p. True)\<rparr>"

definition sys_env :: "(string \<times> string) list \<Rightarrow> sys" where
  \<comment> \<open>the same user with the given variables added to the environment\<close>
  "sys_env vars = sys0\<lparr>getenv := map_of (vars @ [(''HOME'', ''/home/u'')])\<rparr>"

definition cfg_path :: path where
  \<comment> \<open>the canonical configuration file of the examples\<close>
  "cfg_path = Path ''/home/u/.config/par_cc_usage/config.yaml''"

definition fs_file :: "pyval \<Rightarrow> fs" where
  \<comment> \<open>the canonical configuration file exists and parses to the given value\<close>
  "fs_file v =
     fs0\<lparr>path_exists := (\<lambda>p. Some (p = Path ''/home/u/.config/par_cc_usage/config.yaml'')),
         safe_load := (\<lambda>p. if p = Path ''/home/u/.config/par_cc_usage/config.yaml''
                            then Loaded v else OpenFailed)\<rparr>"

definition fs1 :: fs where
  \<comment> \<open>three directories, one of them a link to another\<close>
  "fs1 =
     fs0\<lparr>path_exists := (\<lambda>p. Some (p \<in> set [Path ''/a'', Path ''/link_a'', Path ''/b''])),
         path_is_dir := (\<lambda>p. Some (p \<in> set [Path ''/a'', Path ''/link_a'', Path ''/b''])),
         path_resolve := (\<lambda>p. Some (if p = Path ''/link_a'' then ''/a'' else path_str p))\<rparr>"

definition config1 :: Config where
  "config1 =
     \<lparr>projects_dir = Path ''/home/u/.claude/projects'',
      projects_dirs = Some [Path ''/a'', Path ''/link_a'', Path ''/missing'', Path ''/b''],
      polling_interval = 5, timezone = ''America/Los_Angeles'', token_limit = None,
      cache_dir = Path ''/home/u/.cache/par_cc_usage'', disable_cache = False,
      display = default_DisplayConfig, notifications = default_NotificationConfig,
      recent_activity_window_hours = 5\<rparr>"





definition fs_saved :: "Config \<Rightarrow> fs" where
  \<comment> \<open>the file system after \<open>save_config\<close> has written a configuration to the canonical file\<close>
  "fs_saved c =
     fs0\<lparr>path_exists := (path_exists fs0)(cfg_path := Some True),
         safe_load := (safe_load fs0)(cfg_path := Loaded (VDict (save_dict c)))\<rparr>"

definition config2 :: Config where
  \<comment> \<open>a configuration that differs from the defaults in the four fields that are not saved\<close>
  "config2 =
     config1\<lparr>disable_cache := True, recent_activity_window_hours := 9,
             display := default_DisplayConfig\<lparr>show_tool_usage := True, theme := DARK\<rparr>\<rparr>"

definition config_tilde :: Config where
  \<comment> \<open>a configuration whose single directory starts with the home alias\<close>
  "config_tilde = config1\<lparr>projects_dir := Path ''~/p'', projects_dirs := None\<rparr>"

definition sys_poll20 :: sys where
  \<comment> \<open>the polling interval overridden\<close>
  "sys_poll20 = sys_env [(''PAR_CC_USAGE_POLLING_INTERVAL'', ''20'')]"






section \<open>Boolean coercion\<close>

lemma to_lower_eq_iff: "\<not> is_upper b \<Longrightarrow> (to_lower a = b) = ci_char a b"
  unfolding to_lower_def ci_char_def is_upper_def Let_def
  by (auto simp: char_of_eq_iff take_bit_eq_mod)

lemma lower_eq_iff:
  "list_all (\<lambda>c. \<not> is_upper c) t \<Longrightarrow> (lower s = t) = list_all2 ci_char s t"
  unfolding lower_def
proof (induction s arbitrary: t)
  case Nil
  then show ?case by auto
next
  case (Cons a s)
  show ?case
  proof (cases t)
    case Nil
    then show ?thesis by simp
  next
    case (Cons b t')
    with Cons.prems have "\<not> is_upper b" "list_all (\<lambda>c. \<not> is_upper c) t'"
      by simp_all
    then show ?thesis
      using Cons.IH [of t'] Cons by (simp add: to_lower_eq_iff)
  qed
qed

text \<open>
  C8. Boolean coercion of an environment string is a total function into the booleans:
  it is true exactly when the string equals \<open>true\<close>, \<open>1\<close>, \<open>yes\<close> or \<open>on\<close> up to case,
  and false for every other string.
\<close>

theorem parse_bool_value_truthy_tokens:
  "parse_bool_value v =
     (ci_equal v ''true'' \<or> ci_equal v ''1'' \<or> ci_equal v ''yes'' \<or> ci_equal v ''on'')"
proof -
  have "\<And>t. list_all (\<lambda>c. \<not> is_upper c) t \<Longrightarrow> (lower v = t) = ci_equal v t"
    unfolding ci_equal_def by (rule lower_eq_iff)
  then have "(lower v = ''true'') = ci_equal v ''true''"
    "(lower v = ''1'') = ci_equal v ''1''"
    "(lower v = ''yes'') = ci_equal v ''yes''"
    "(lower v = ''on'') = ci_equal v ''on''"
    by (simp_all add: is_upper_def)
  then show ?thesis
    by (simp add: parse_bool_value_def)
qed

section \<open>What the override passes leave in the dictionary\<close>

lemma map_of_apply_env_overrides:
  "map_of (apply_env_overrides sy d m) k =
     (case override_for sy m k of Some v \<Rightarrow> Some v | None \<Rightarrow> map_of d k)"
proof (induction m arbitrary: d)
  case Nil
  show ?case by simp
next
  case (Cons a m)
  obtain e c where a: "a = (e, c)" by (cases a)
  show ?case
    unfolding a
    by (simp add: Cons.IH update_conv' split: option.splits)
qed

lemma override_for_other:
  "k \<notin> snd ` set m \<Longrightarrow> override_for sy m k = None"
  by (induction m) auto

lemma override_for_mapped:
  "distinct (map snd m) \<Longrightarrow> (e, k) \<in> set m \<Longrightarrow> override_for sy m k = env_override sy e k"
proof (induction m)
  case Nil
  then show ?case by simp
next
  case (Cons a m)
  obtain e' c where a: "a = (e', c)" by (cases a)
  show ?case
  proof (cases "(e, k) \<in> set m")
    case True
    with Cons.prems a have "c \<noteq> k" by force
    with Cons True a show ?thesis by (simp split: option.splits)
  next
    case False
    with Cons.prems a have "e' = e" "c = k" "k \<notin> snd ` set m" by auto
    then show ?thesis using a by (simp add: override_for_other)
  qed
qed

lemma top_level_keys:
  "snd ` set get_top_level_env_mapping =
     {''projects_dir'', ''polling_interval'', ''timezone'', ''token_limit'', ''cache_dir'',
      ''disable_cache'', ''recent_activity_window_hours''}"
  by (simp add: get_top_level_env_mapping_def)

lemma top_level_distinct: "distinct (map snd get_top_level_env_mapping)"
  by (simp add: get_top_level_env_mapping_def)

lemma map_of_claude_override:
  "k \<noteq> ''projects_dirs'' \<Longrightarrow> map_of (apply_claude_config_dir_override sy d) k = map_of d k"
  by (simp add: apply_claude_config_dir_override_def update_conv' split: option.splits)

lemma nested_None:
  "map_of d s = None \<Longrightarrow>
   apply_nested_env_overrides sy d s m =
     Inr (if apply_env_overrides sy [] m \<noteq> []
          then AList.update s (VDict (apply_env_overrides sy [] m)) d else d)"
  by (simp add: apply_nested_env_overrides_def Let_def)

lemma merge_overrides_empty: "\<exists>d. merge_overrides sy [] = Inr d"
proof -
  let ?d2 = "apply_env_overrides sy (apply_claude_config_dir_override sy []) get_top_level_env_mapping"
  have 1: "map_of ?d2 ''display'' = None"
    by (simp add: map_of_apply_env_overrides override_for_other top_level_keys
        map_of_claude_override)
  have 2: "map_of ?d2 ''notifications'' = None"
    by (simp add: map_of_apply_env_overrides override_for_other top_level_keys
        map_of_claude_override)
  obtain d3 where 3: "apply_nested_env_overrides sy ?d2 ''display'' get_display_env_mapping = Inr d3"
    and 4: "map_of d3 ''notifications'' = None"
    using 1 2 by (simp add: nested_None update_conv')
  show ?thesis
    unfolding merge_overrides_def Let_def 3 using nested_None [OF 4] by simp
qed

lemmas env_eval = env_override_def env_nonempty_def

lemmas merge_eval =
  merge_overrides_def apply_claude_config_dir_override_def get_top_level_env_mapping_def
  get_display_env_mapping_def get_notification_env_mapping_def apply_nested_env_overrides_def

lemma merge_overrides_sys0: "merge_overrides sys0 [] = Inr []"
  by (simp add: merge_eval env_eval sys0_def)

lemma locate_sys0:
  "locate_config_file sys0 fs0 None =
     (Path ''/home/u/.config/par_cc_usage/config.yaml'', fs0)"
  by (simp add: locate_config_file_def sys0_def fs0_def)

section \<open>Failures of the file layer\<close>

text \<open>
  C2. Let the file-loading step settle on a file to read (after the migration step, if it
  ran). When the existence check on that file raises, or the file is absent, or opening
  or reading it fails, or its bytes do not decode, or its text is not well-formed YAML,
  the step returns the empty mapping and raises nothing; resolution then builds the
  configuration from the environment overrides over the empty mapping, that is from
  overrides and schema defaults only.
\<close>

theorem load_config_file_failure_empty:
  assumes "locate_config_file sy f config_file = (cf, f')"
    and "path_exists f' cf = None \<or> path_exists f' cf = Some False
         \<or> safe_load f' cf = OpenFailed \<or> safe_load f' cf = UnicodeDecodeError
         \<or> safe_load f' cf = YAMLError"
  shows "fst (load_config_file sy f config_file) = Inr (VDict [])
         \<and> (\<exists>d. merge_overrides sy [] = Inr d
                \<and> load_config sy f config_file = new_Config sy f' d)"
proof -
  have r: "read_config_file sy f' cf = Inr (VDict [])"
    using assms(2) by (auto simp: read_config_file_def split: option.splits bool.splits)
  then have l: "load_config_file sy f config_file = (Inr (VDict []), f')"
    using assms(1) by (simp add: load_config_file_def)
  obtain d where d: "merge_overrides sy [] = Inr d"
    using merge_overrides_empty by blast
  have "load_config sy f config_file = new_Config sy f' d"
    using l d by (simp add: load_config_def merged_config_dict_def)
  with l d show ?thesis by simp
qed

theorem load_config_file_failure_empty_witness:
  "fst (load_config_file sys0 fs0 None) = Inr (VDict [])
   \<and> load_config sys0 fs0 None = new_Config sys0 fs0 []"
  using load_config_file_failure_empty [OF locate_sys0]
  by (simp add: fs0_def merge_overrides_sys0)

section \<open>Validators and fields\<close>

lemma proper_scalars:
  "proper v_int" "proper v_bool" "proper v_str" "proper v_path" "proper v_time_format"
  "proper v_display_mode" "proper v_theme"
  unfolding proper_def
proof -
  show "\<forall>x. v_int x \<noteq> Inl []" proof fix x show "v_int x \<noteq> Inl []" by (cases x) (auto split: option.splits) qed
  show "\<forall>x. v_bool x \<noteq> Inl []" proof fix x show "v_bool x \<noteq> Inl []" by (cases x) (auto split: option.splits) qed
  show "\<forall>x. v_str x \<noteq> Inl []" proof fix x show "v_str x \<noteq> Inl []" by (cases x) (auto split: option.splits) qed
  show "\<forall>x. v_path x \<noteq> Inl []" proof fix x show "v_path x \<noteq> Inl []" by (cases x) (auto split: option.splits) qed
  show "\<forall>x. v_time_format x \<noteq> Inl []" proof fix x show "v_time_format x \<noteq> Inl []" by (cases x) (auto split: option.splits) qed
  show "\<forall>x. v_display_mode x \<noteq> Inl []" proof fix x show "v_display_mode x \<noteq> Inl []" by (cases x) (auto split: option.splits) qed
  show "\<forall>x. v_theme x \<noteq> Inl []" proof fix x show "v_theme x \<noteq> Inl []" by (cases x) (auto split: option.splits) qed
qed

lemma all_valid_proper: "all_valid rs \<noteq> Inl []"
  by (induction rs) (auto split: sum.splits)

lemma proper_list: "proper (v_list v)"
  unfolding proper_def
proof
  fix x show "v_list v x \<noteq> Inl []" by (cases x) (auto simp: all_valid_proper)
qed

lemma proper_opt: "proper v \<Longrightarrow> proper (v_opt v)"
  unfolding proper_def
proof
  fix x assume "\<forall>x. v x \<noteq> Inl []"
  then show "v_opt v x \<noteq> Inl []" by (cases x) (auto split: sum.splits)
qed

lemma proper_sections: "proper v_DisplayConfig" "proper v_NotificationConfig"
  unfolding proper_def v_DisplayConfig_def v_NotificationConfig_def
  by (auto split: pyval.splits)

lemmas proper_all = proper_scalars proper_list proper_opt proper_sections

lemma field_lookup:
  "proper v \<Longrightarrow> field_errors d k v = [] \<Longrightarrow>
   Inr (field_value d k v dflt) = (case map_of d k of None \<Rightarrow> Inr dflt | Some x \<Rightarrow> v x)"
  by (auto simp: proper_def field_errors_def field_value_def split: option.splits sum.splits)

section \<open>The merged dictionary\<close>

lemma display_distinct: "distinct (map snd get_display_env_mapping)"
  by (simp add: get_display_env_mapping_def)


lemma nested_map_of_other:
  "apply_nested_env_overrides sy d s m = Inr d' \<Longrightarrow> k \<noteq> s \<Longrightarrow> map_of d' k = map_of d k"
  by (auto simp: apply_nested_env_overrides_def Let_def update_conv'
      split: option.splits pyval.splits if_splits)

lemma nested_map_of_section:
  "apply_nested_env_overrides sy d s m = Inr d' \<Longrightarrow>
   map_of d' s =
     (case map_of d s of
        None \<Rightarrow> (if apply_env_overrides sy [] m \<noteq> []
                 then Some (VDict (apply_env_overrides sy [] m)) else None)
      | Some (VDict sd) \<Rightarrow> Some (VDict (apply_env_overrides sy sd m))
      | Some other \<Rightarrow> Some other)"
  by (auto simp: apply_nested_env_overrides_def Let_def update_conv'
      split: option.splits pyval.splits if_splits)

lemma overrides_empty_none:
  assumes "apply_env_overrides sy [] m = []"
  shows "override_for sy m k = None"
proof -
  have "map_of (apply_env_overrides sy [] m) k = None" using assms by simp
  then show ?thesis by (simp add: map_of_apply_env_overrides split: option.splits)
qed

text \<open>The section dictionary that reaches a nested model, described key by key.\<close>

lemma nested_section_lookup:
  assumes "apply_nested_env_overrides sy d s m = Inr d'"
    and "map_of d' s = Some (VDict sd)"
  shows "map_of sd k =
           (case override_for sy m k of Some v \<Rightarrow> Some v | None \<Rightarrow> map_of (section_of d s) k)"
proof (cases "map_of d s")
  case None
  with nested_map_of_section [OF assms(1)] assms(2)
  have "sd = apply_env_overrides sy [] m" by (simp split: if_splits)
  with None show ?thesis
    by (simp add: map_of_apply_env_overrides section_of_def split: option.splits)
next
  case (Some x)
  with nested_map_of_section [OF assms(1)] assms(2)
  obtain sd0 where "x = VDict sd0" "sd = apply_env_overrides sy sd0 m"
    by (cases x) auto
  with Some show ?thesis
    by (simp add: map_of_apply_env_overrides section_of_def split: option.splits)
qed

lemma nested_section_absent:
  assumes "apply_nested_env_overrides sy d s m = Inr d'"
    and "map_of d' s = None"
  shows "override_for sy m k = None \<and> section_of d s = []"
proof -
  from nested_map_of_section [OF assms(1)] assms(2)
  have "map_of d s = None" "apply_env_overrides sy [] m = []"
    by (auto split: option.splits pyval.splits if_splits)
  then show ?thesis by (simp add: overrides_empty_none section_of_def)
qed

text \<open>The merged dictionary, described key by key.\<close>

lemma merged_top_level:
  assumes "merge_overrides sy file = Inr d"
    and "k \<noteq> ''projects_dirs''" "k \<noteq> ''display''" "k \<noteq> ''notifications''"
  shows "map_of d k =
           (case override_for sy get_top_level_env_mapping k of
              Some v \<Rightarrow> Some v | None \<Rightarrow> map_of file k)"
proof -
  let ?d2 = "apply_env_overrides sy (apply_claude_config_dir_override sy file) get_top_level_env_mapping"
  from assms(1) obtain d3 where
    3: "apply_nested_env_overrides sy ?d2 ''display'' get_display_env_mapping = Inr d3" and
    4: "apply_nested_env_overrides sy d3 ''notifications'' get_notification_env_mapping = Inr d"
    by (auto simp: merge_overrides_def Let_def split: sum.splits)
  have "map_of d k = map_of ?d2 k"
    using nested_map_of_other [OF 4 assms(4)] nested_map_of_other [OF 3 assms(3)] by simp
  then show ?thesis
    using assms(2)
    by (simp add: map_of_apply_env_overrides map_of_claude_override split: option.splits)
qed


lemma merged_display:
  assumes "merge_overrides sy file = Inr d"
  shows "(map_of d ''display'' = Some (VDict sd) \<longrightarrow>
            map_of sd k = (case override_for sy get_display_env_mapping k of
                             Some v \<Rightarrow> Some v | None \<Rightarrow> map_of (section_of file ''display'') k))
       \<and> (map_of d ''display'' = None \<longrightarrow>
            override_for sy get_display_env_mapping k = None \<and> section_of file ''display'' = [])"
proof -
  let ?d2 = "apply_env_overrides sy (apply_claude_config_dir_override sy file) get_top_level_env_mapping"
  from assms(1) obtain d3 where
    3: "apply_nested_env_overrides sy ?d2 ''display'' get_display_env_mapping = Inr d3" and
    4: "apply_nested_env_overrides sy d3 ''notifications'' get_notification_env_mapping = Inr d"
    by (auto simp: merge_overrides_def Let_def split: sum.splits)
  have a: "map_of d ''display'' = map_of d3 ''display''"
    using nested_map_of_other [OF 4] by simp
  have "map_of ?d2 ''display'' = map_of file ''display''"
    by (simp add: map_of_apply_env_overrides override_for_other top_level_keys
        map_of_claude_override)
  then have b: "section_of ?d2 ''display'' = section_of file ''display''"
    by (simp add: section_of_def)
  show ?thesis
    using nested_section_lookup [OF 3, of sd k] nested_section_absent [OF 3, of k] a b
    by (simp split: option.splits)
qed

lemma merged_notifications:
  assumes "merge_overrides sy file = Inr d"
  shows "(map_of d ''notifications'' = Some (VDict sd) \<longrightarrow>
            map_of sd k = (case override_for sy get_notification_env_mapping k of
                             Some v \<Rightarrow> Some v | None \<Rightarrow> map_of (section_of file ''notifications'') k))
       \<and> (map_of d ''notifications'' = None \<longrightarrow>
            override_for sy get_notification_env_mapping k = None \<and> section_of file ''notifications'' = [])"
proof -
  let ?d2 = "apply_env_overrides sy (apply_claude_config_dir_override sy file) get_top_level_env_mapping"
  from assms(1) obtain d3 where
    3: "apply_nested_env_overrides sy ?d2 ''display'' get_display_env_mapping = Inr d3" and
    4: "apply_nested_env_overrides sy d3 ''notifications'' get_notification_env_mapping = Inr d"
    by (auto simp: merge_overrides_def Let_def split: sum.splits)
  have "map_of d3 ''notifications'' = map_of ?d2 ''notifications''"
    using nested_map_of_other [OF 3] by simp
  also have "\<dots> = map_of file ''notifications''"
    by (simp add: map_of_apply_env_overrides override_for_other top_level_keys
        map_of_claude_override)
  finally have b: "section_of d3 ''notifications'' = section_of file ''notifications''"
    by (simp add: section_of_def)
  show ?thesis
    using nested_section_lookup [OF 4, of sd k] nested_section_absent [OF 4, of k] b
    by (simp split: option.splits)
qed

lemma section_field:
  assumes "map_of sd k = (case override_for sy m k of Some v \<Rightarrow> Some v | None \<Rightarrow> map_of fsec k)"
    and "proper v" and "field_errors sd k v = []"
  shows "Inr (field_value sd k v dflt) = resolve_field v dflt (override_for sy m k) (map_of fsec k)"
  using field_lookup [OF assms(2,3), of dflt] assms(1)
  by (simp add: resolve_field_def split: option.splits)

lemma read_config_file_not_OSError: "read_config_file sy f cf \<noteq> Inl OSError"
  by (auto simp: read_config_file_def expand_paths_in_config_def
      split: option.splits bool.splits read_result.splits pyval.splits)

lemma load_config_Inr:
  assumes "load_config sy f cfile = Inr c"
  shows "\<exists>file f' d. load_config_file sy f cfile = (Inr (VDict file), f')
           \<and> merge_overrides sy file = Inr d \<and> Config_errors d = []
           \<and> c = Config_fields sy d \<and> mkdir_ok f' (cache_dir c)"
proof -
  obtain r f' where l: "load_config_file sy f cfile = (r, f')" by (cases "load_config_file sy f cfile")
  then have "r \<noteq> Inl OSError"
    using read_config_file_not_OSError
    by (auto simp: load_config_file_def split: prod.splits)
  with assms l obtain fd d where "r = Inr (VDict fd)" "merge_overrides sy fd = Inr d"
    "new_Config sy f' d = Inr c"
    by (auto simp: load_config_def merged_config_dict_def split: sum.splits pyval.splits if_splits)
  with l show ?thesis
    by (auto simp: new_Config_def validate_Config_def split: if_splits sum.splits)
qed

lemma top_field:
  assumes "merge_overrides sy fd = Inr d" and "(e, k) \<in> set get_top_level_env_mapping"
    and "proper v" and "field_errors d k v = []"
  shows "Inr (field_value d k v dflt) = resolve_field v dflt (env_override sy e k) (map_of fd k)"
proof -
  from assms(2) have "k \<in> snd ` set get_top_level_env_mapping" by force
  then have "k \<noteq> ''projects_dirs''" "k \<noteq> ''display''" "k \<noteq> ''notifications''"
    unfolding top_level_keys by auto
  from merged_top_level [OF assms(1) this]
  have "map_of d k = (case override_for sy get_top_level_env_mapping k of
                        Some v \<Rightarrow> Some v | None \<Rightarrow> map_of fd k)" .
  from section_field [OF this assms(3,4)] show ?thesis
    by (simp add: override_for_mapped [OF top_level_distinct assms(2)])
qed

lemma sec_field:
  assumes "\<And>k. map_of sd k = (case override_for sy m k of Some v \<Rightarrow> Some v | None \<Rightarrow> map_of fsec k)"
    and "distinct (map snd m)" and "(e, k) \<in> set m"
    and "proper v" and "field_errors sd k v = []"
  shows "Inr (field_value sd k v dflt) = resolve_field v dflt (env_override sy e k) (map_of fsec k)"
  using section_field [OF assms(1) assms(4,5)]
  by (simp add: override_for_mapped [OF assms(2,3)])


lemma display_section:
  assumes "merge_overrides sy fd = Inr d" and "field_errors d ''display'' v_DisplayConfig = []"
  shows "\<exists>sd. field_value d ''display'' v_DisplayConfig default_DisplayConfig = DisplayConfig_fields sd
           \<and> DisplayConfig_errors sd = []
           \<and> (\<forall>k. map_of sd k = (case override_for sy get_display_env_mapping k of
                                   Some v \<Rightarrow> Some v
                                 | None \<Rightarrow> map_of (section_of fd ''display'') k))"
proof (cases "map_of d ''display''")
  case None
  have "field_value d ''display'' v_DisplayConfig default_DisplayConfig = DisplayConfig_fields []"
    using None by (simp add: field_value_def default_DisplayConfig_def DisplayConfig_fields_def)
  moreover have "DisplayConfig_errors [] = []"
    by (simp add: DisplayConfig_errors_def field_errors_def)
  moreover have "\<forall>k. map_of [] k = (case override_for sy get_display_env_mapping k of
                                   Some v \<Rightarrow> Some v
                                 | None \<Rightarrow> map_of (section_of fd ''display'') k)"
    using merged_display [OF assms(1)] None by simp
  ultimately show ?thesis by blast
next
  case (Some x)
  with assms(2) obtain sd where x: "x = VDict sd" and e: "DisplayConfig_errors sd = []"
    by (cases x) (auto simp: field_errors_def v_DisplayConfig_def split: if_splits)
  have "field_value d ''display'' v_DisplayConfig default_DisplayConfig = DisplayConfig_fields sd"
    using Some x e by (simp add: field_value_def v_DisplayConfig_def)
  moreover have "\<forall>k. map_of sd k = (case override_for sy get_display_env_mapping k of
                                   Some v \<Rightarrow> Some v
                                 | None \<Rightarrow> map_of (section_of fd ''display'') k)"
    using merged_display [OF assms(1)] Some x by simp
  ultimately show ?thesis using e by blast
qed

lemma notifications_section:
  assumes "merge_overrides sy fd = Inr d"
    and "field_errors d ''notifications'' v_NotificationConfig = []"
  shows "\<exists>sn. field_value d ''notifications'' v_NotificationConfig default_NotificationConfig
                = NotificationConfig_fields sn
           \<and> NotificationConfig_errors sn = []
           \<and> (\<forall>k. map_of sn k = (case override_for sy get_notification_env_mapping k of
                                   Some v \<Rightarrow> Some v
                                 | None \<Rightarrow> map_of (section_of fd ''notifications'') k))"
proof (cases "map_of d ''notifications''")
  case None
  have "field_value d ''notifications'' v_NotificationConfig default_NotificationConfig
          = NotificationConfig_fields []"
    using None
    by (simp add: field_value_def default_NotificationConfig_def NotificationConfig_fields_def)
  moreover have "NotificationConfig_errors [] = []"
    by (simp add: NotificationConfig_errors_def field_errors_def)
  moreover have "\<forall>k. map_of [] k = (case override_for sy get_notification_env_mapping k of
                                   Some v \<Rightarrow> Some v
                                 | None \<Rightarrow> map_of (section_of fd ''notifications'') k)"
    using merged_notifications [OF assms(1)] None by simp
  ultimately show ?thesis by blast
next
  case (Some x)
  with assms(2) obtain sn where x: "x = VDict sn" and e: "NotificationConfig_errors sn = []"
    by (cases x) (auto simp: field_errors_def v_NotificationConfig_def split: if_splits)
  have "field_value d ''notifications'' v_NotificationConfig default_NotificationConfig
          = NotificationConfig_fields sn"
    using Some x e by (simp add: field_value_def v_NotificationConfig_def)
  moreover have "\<forall>k. map_of sn k = (case override_for sy get_notification_env_mapping k of
                                   Some v \<Rightarrow> Some v
                                 | None \<Rightarrow> map_of (section_of fd ''notifications'') k)"
    using merged_notifications [OF assms(1)] Some x by simp
  ultimately show ?thesis using e by blast
qed

section \<open>Evaluating the examples\<close>

lemmas str_eval =
  strip_def is_space_def is_digit_def digit_val_def unsigned_part_def is_negative_def
  numeric_string_def py_int_def int_max_str_digits_def lower_def to_lower_def is_upper_def

lemmas parse_eval =
  parse_env_value_def int_fields_def bool_fields_def parse_int_value_def parse_bool_value_def
  parse_time_format_value_def parse_display_mode_value_def parse_prefix_list_value_def
  TimeFormat_of_def DisplayMode_of_def ThemeType_of_def

lemmas world_eval = sys0_def fs0_def fs_file_def sys_env_def

lemmas load_eval =
  load_config_file_def locate_config_file_def read_config_file_def expand_paths_in_config_def
  path_field_names_def expand_field_def Let_def

lemmas validate_eval =
  new_Config_def validate_Config_def Config_errors_def Config_fields_def field_errors_def
  field_value_def v_DisplayConfig_def v_NotificationConfig_def DisplayConfig_errors_def
  DisplayConfig_fields_def NotificationConfig_errors_def NotificationConfig_fields_def
  default_DisplayConfig_def default_NotificationConfig_def default_projects_dir_def joinpath_def









section \<open>Precedence\<close>



section \<open>Resolving the directories to monitor\<close>

lemma is_existing_dir_Inr: "is_existing_dir f p = Inr b \<Longrightarrow> b = valid_dir f p"
  by (auto simp: is_existing_dir_def valid_dir_def split: option.splits bool.splits)

lemma existing_dirs_Inr: "existing_dirs f ps = Inr r \<Longrightarrow> r = filter (valid_dir f) ps"
proof (induction ps arbitrary: r)
  case Nil
  then show ?case by simp
next
  case (Cons p ps)
  then show ?case
    by (auto split: sum.splits dest: is_existing_dir_Inr)
qed

lemma candidate_paths_Inr:
  "candidate_paths sy f c = Inr cands \<Longrightarrow> cands = spec_candidates sy f c"
  by (auto simp: candidate_paths_def spec_candidates_def configured_dirs_def
      split: option.splits list.splits sum.splits dest!: existing_dirs_Inr)

lemma dedup_valid_Inr:
  "dedup_valid f seen ps = Inr r \<Longrightarrow>
   r = dedup_by (path_resolve f)
         (filter (\<lambda>p. valid_dir f p \<and> path_resolve f p \<notin> Some ` set seen) ps)"
proof (induction ps arbitrary: seen r)
  case Nil
  then show ?case by simp
next
  case (Cons p ps)
  from Cons.prems obtain k where k: "path_resolve f p = Some k"
    by (auto split: option.splits)
  show ?case
  proof (cases "k \<in> set seen")
    case True
    with Cons k show ?thesis by auto
  next
    case False
    with Cons.prems k obtain b where b: "is_existing_dir f p = Inr b"
      by (auto split: sum.splits)
    then have bv: "b = valid_dir f p" by (rule is_existing_dir_Inr)
    show ?thesis
    proof (cases b)
      case True
      with Cons.prems k False b obtain r' where
        r': "dedup_valid f (k # seen) ps = Inr r'" "r = p # r'"
        by (auto split: sum.splits)
      have "filter (\<lambda>y. path_resolve f y \<noteq> path_resolve f p)
              (filter (\<lambda>p. valid_dir f p \<and> path_resolve f p \<notin> Some ` set seen) ps)
            = filter (\<lambda>p. valid_dir f p \<and> path_resolve f p \<notin> Some ` set (k # seen)) ps"
        using k by (auto intro: filter_cong)
      with Cons.IH [OF r'(1)] r'(2) True bv k False show ?thesis by auto
    next
      case invalid: False
      with Cons.prems k False b have "dedup_valid f seen ps = Inr r" by simp
      from Cons.IH [OF this] invalid bv show ?thesis by simp
    qed
  qed
qed

lemma set_dedup_by: "set (dedup_by key xs) \<subseteq> set xs"
  by (induction key xs rule: dedup_by.induct) auto

lemma distinct_dedup_by: "distinct (map key (dedup_by key xs))"
proof (induction key xs rule: dedup_by.induct)
  case (1 key)
  show ?case by simp
next
  case (2 key x xs)
  have "key x \<notin> key ` set (dedup_by key (filter (\<lambda>y. key y \<noteq> key x) xs))"
    using set_dedup_by [of key "filter (\<lambda>y. key y \<noteq> key x) xs"] by auto
  with 2 show ?case by simp
qed

lemma is_existing_dir_total: "answers f \<Longrightarrow> \<exists>b. is_existing_dir f p = Inr b"
proof -
  assume "answers f"
  then obtain e d where "path_exists f p = Some e" "path_is_dir f p = Some d"
    unfolding answers_def by (meson option.exhaust)
  then show ?thesis by (cases e) (auto simp: is_existing_dir_def)
qed

lemma existing_dirs_total: "answers f \<Longrightarrow> \<exists>r. existing_dirs f ps = Inr r"
proof (induction ps)
  case Nil
  show ?case by simp
next
  case (Cons p ps)
  then obtain r where "existing_dirs f ps = Inr r" by blast
  moreover obtain b where "is_existing_dir f p = Inr b"
    using is_existing_dir_total [OF Cons.prems] by blast
  ultimately show ?case by simp
qed

lemma dedup_valid_total: "answers f \<Longrightarrow> \<exists>r. dedup_valid f seen ps = Inr r"
proof (induction ps arbitrary: seen)
  case Nil
  show ?case by simp
next
  case (Cons p ps)
  obtain k where k: "path_resolve f p = Some k"
    using Cons.prems by (auto simp: answers_def)
  obtain b where b: "is_existing_dir f p = Inr b"
    using is_existing_dir_total [OF Cons.prems] by blast
  obtain r1 where r1: "dedup_valid f seen ps = Inr r1"
    using Cons.IH [OF Cons.prems] by blast
  obtain r2 where r2: "dedup_valid f (k # seen) ps = Inr r2"
    using Cons.IH [OF Cons.prems] by blast
  show ?case using k b r1 r2 by (cases b) auto
qed

lemma get_claude_paths_total: "answers f \<Longrightarrow> \<exists>ps. get_claude_paths sy f c = Inr ps"
proof -
  assume a: "answers f"
  obtain r where "existing_dirs f (default_paths sy) = Inr r"
    using existing_dirs_total [OF a] by blast
  then have "\<exists>cands. candidate_paths sy f c = Inr cands"
    by (simp add: candidate_paths_def split: option.splits list.splits)
  then obtain cands where "candidate_paths sy f c = Inr cands" by blast
  then show ?thesis
    using dedup_valid_total [OF a, of "[]" cands] by (simp add: get_claude_paths_def)
qed

lemma dedup_by_filter_aux:
  assumes "\<And>x y. key x = key y \<Longrightarrow> P x = P y"
  shows "length xs \<le> n \<Longrightarrow> dedup_by key (filter P xs) = filter P (dedup_by key xs)"
proof (induction n arbitrary: xs)
  case 0
  then show ?case by simp
next
  case (Suc n)
  show ?case
  proof (cases xs)
    case Nil
    then show ?thesis by simp
  next
    case (Cons x ys)
    let ?Q = "\<lambda>y. key y \<noteq> key x"
    have len: "length (filter ?Q ys) \<le> n"
      using Suc.prems Cons by (simp add: le_trans [OF length_filter_le])
    have ih: "dedup_by key (filter P (filter ?Q ys)) = filter P (dedup_by key (filter ?Q ys))"
      by (rule Suc.IH [OF len])
    have c: "filter ?Q (filter P ys) = filter P (filter ?Q ys)"
      by (induction ys) simp_all
    show ?thesis
    proof (cases "P x")
      case True
      have "dedup_by key (filter P xs) = x # dedup_by key (filter ?Q (filter P ys))"
        using True Cons by simp
      also have "\<dots> = x # filter P (dedup_by key (filter ?Q ys))"
        by (simp only: c ih)
      also have "\<dots> = filter P (dedup_by key xs)"
        using True Cons by simp
      finally show ?thesis .
    next
      case False
      have np: "\<And>y. key y = key x \<Longrightarrow> \<not> P y" using assms False by blast
      have e: "filter P (filter ?Q ys) = filter P ys"
      proof (induction ys)
        case Nil
        show ?case by simp
      next
        case (Cons a as)
        then show ?case using np [of a] by simp
      qed
      have "dedup_by key (filter P xs) = dedup_by key (filter P ys)"
        using False Cons by simp
      also have "\<dots> = dedup_by key (filter P (filter ?Q ys))"
        by (simp only: e)
      also have "\<dots> = filter P (dedup_by key (filter ?Q ys))"
        by (rule ih)
      also have "\<dots> = filter P (dedup_by key xs)"
        using False Cons by simp
      finally show ?thesis .
    qed
  qed
qed

lemma dedup_by_filter:
  assumes "\<And>x y. key x = key y \<Longrightarrow> P x = P y"
  shows "dedup_by key (filter P xs) = filter P (dedup_by key xs)"
  by (rule dedup_by_filter_aux [OF assms le_refl])

text \<open>
  C6. Whenever \<open>get_claude_paths\<close> returns, its result is the candidate list of the
  specification (the configured multi-directory list when it is not empty; otherwise the
  default directories that exist and are directories; otherwise the single configured
  directory, taken without a check), filtered to the candidates that exist and are
  directories and deduplicated by resolved path, keeping first occurrences in order. No
  resolved path occurs twice in the result, every member exists and is a directory, and
  the result may be empty. Where two paths that resolve alike are valid alike, it makes no
  difference whether the candidates are filtered before or after the duplicates are
  dropped. On a file system whose queries do not raise it always returns.
\<close>

theorem get_claude_paths_resolves:
  "(\<forall>ps. get_claude_paths sy f c = Inr ps \<longrightarrow>
      ps = dedup_by (path_resolve f) (filter (valid_dir f) (spec_candidates sy f c))
      \<and> distinct (map (path_resolve f) ps)
      \<and> list_all (valid_dir f) ps
      \<and> ((\<forall>p q. path_resolve f p = path_resolve f q \<longrightarrow> valid_dir f p = valid_dir f q) \<longrightarrow>
           ps = filter (valid_dir f) (dedup_by (path_resolve f) (spec_candidates sy f c))))
   \<and> (answers f \<longrightarrow> (\<exists>ps. get_claude_paths sy f c = Inr ps))"
proof (intro conjI allI impI)
  fix ps
  assume a: "get_claude_paths sy f c = Inr ps"
  then obtain cands where c: "candidate_paths sy f c = Inr cands"
    and d: "dedup_valid f [] cands = Inr ps"
    by (auto simp: get_claude_paths_def split: sum.splits)
  show 1: "ps = dedup_by (path_resolve f) (filter (valid_dir f) (spec_candidates sy f c))"
    using dedup_valid_Inr [OF d] candidate_paths_Inr [OF c] by simp
  show "distinct (map (path_resolve f) ps)"
    unfolding 1 by (rule distinct_dedup_by)
  show "list_all (valid_dir f) ps"
    unfolding 1 list_all_iff using set_dedup_by [of "path_resolve f"] by fastforce
  assume h: "\<forall>p q. path_resolve f p = path_resolve f q \<longrightarrow> valid_dir f p = valid_dir f q"
  have "dedup_by (path_resolve f) (filter (valid_dir f) (spec_candidates sy f c))
          = filter (valid_dir f) (dedup_by (path_resolve f) (spec_candidates sy f c))"
  proof (rule dedup_by_filter)
    fix x y
    assume "path_resolve f x = path_resolve f y"
    with h show "valid_dir f x = valid_dir f y" by blast
  qed
  with 1 show "ps = filter (valid_dir f) (dedup_by (path_resolve f) (spec_candidates sy f c))"
    by (rule trans)
next
  assume "answers f"
  then show "\<exists>ps. get_claude_paths sy f c = Inr ps" by (rule get_claude_paths_total)
qed

lemmas paths_eval =
  get_claude_paths_def candidate_paths_def is_existing_dir_def default_paths_def joinpath_def

lemma paths_config1: "get_claude_paths sys0 fs1 config1 = Inr [Path ''/a'', Path ''/b'']"
  by (simp add: paths_eval config1_def fs1_def fs0_def)

lemma paths_nothing: "get_claude_paths sys0 fs0 config1 = Inr []"
  by (simp add: paths_eval config1_def fs0_def)

lemma answers_fs1: "answers fs1"
  by (simp add: answers_def fs1_def fs0_def)

lemma coherent_fs1:
  "\<forall>p q. path_resolve fs1 p = path_resolve fs1 q \<longrightarrow> valid_dir fs1 p = valid_dir fs1 q"
proof (intro allI impI)
  fix p q
  assume "path_resolve fs1 p = path_resolve fs1 q"
  then show "valid_dir fs1 p = valid_dir fs1 q"
    by (cases p; cases q) (auto simp: fs1_def fs0_def valid_dir_def split: if_splits)
qed

lemma candidates_config1:
  "filter (valid_dir fs1) (dedup_by (path_resolve fs1) (spec_candidates sys0 fs1 config1))
     = [Path ''/a'', Path ''/b'']"
  by (simp add: spec_candidates_def configured_dirs_def config1_def fs1_def fs0_def valid_dir_def)

theorem get_claude_paths_resolves_witness:
  "answers fs1
   \<and> get_claude_paths sys0 fs1 config1 = Inr [Path ''/a'', Path ''/b'']
   \<and> [Path ''/a'', Path ''/b'']
       = dedup_by (path_resolve fs1) (filter (valid_dir fs1) (spec_candidates sys0 fs1 config1))
   \<and> [Path ''/a'', Path ''/b'']
       = filter (valid_dir fs1) (dedup_by (path_resolve fs1) (spec_candidates sys0 fs1 config1))
   \<and> distinct (map (path_resolve fs1) [Path ''/a'', Path ''/b''])
   \<and> get_claude_paths sys0 fs0 config1 = Inr []"
proof -
  note r = get_claude_paths_resolves [of sys0 fs1 config1, THEN conjunct1, rule_format,
      OF paths_config1]
  note s = r [THEN conjunct2, THEN conjunct2, THEN conjunct2, THEN mp, OF coherent_fs1]
  show ?thesis
    by (intro conjI) (rule answers_fs1 paths_config1 paths_nothing r [THEN conjunct1]
        r [THEN conjunct2, THEN conjunct1] s)+
qed

section \<open>The directory-list variable and integer overrides\<close>

lemma load_config_parts:
  assumes lf: "load_config_file sy f cfile = (Inr (VDict fd), f')"
    and lc: "load_config sy f cfile = Inr c"
  shows "\<exists>d sd sn. merge_overrides sy fd = Inr d \<and> Config_errors d = []
           \<and> c = Config_fields sy d \<and> mkdir_ok f' (cache_dir c)
           \<and> display c = DisplayConfig_fields sd \<and> DisplayConfig_errors sd = []
           \<and> (\<forall>k. map_of sd k = (case override_for sy get_display_env_mapping k of
                                   Some v \<Rightarrow> Some v
                                 | None \<Rightarrow> map_of (section_of fd ''display'') k))
           \<and> notifications c = NotificationConfig_fields sn
           \<and> NotificationConfig_errors sn = []
           \<and> (\<forall>k. map_of sn k = (case override_for sy get_notification_env_mapping k of
                                   Some v \<Rightarrow> Some v
                                 | None \<Rightarrow> map_of (section_of fd ''notifications'') k))"
proof -
  from load_config_Inr [OF lc] lf obtain d where m: "merge_overrides sy fd = Inr d"
    and errs: "Config_errors d = []" and c: "c = Config_fields sy d"
    and mk: "mkdir_ok f' (cache_dir c)"
    by auto
  from errs have de: "field_errors d ''display'' v_DisplayConfig = []"
    and ne: "field_errors d ''notifications'' v_NotificationConfig = []"
    by (simp_all add: Config_errors_def)
  from display_section [OF m de] obtain sd where
    "display c = DisplayConfig_fields sd" "DisplayConfig_errors sd = []"
    "\<forall>k. map_of sd k = (case override_for sy get_display_env_mapping k of
                                   Some v \<Rightarrow> Some v
                                 | None \<Rightarrow> map_of (section_of fd ''display'') k)"
    by (auto simp: c Config_fields_def)
  moreover from notifications_section [OF m ne] obtain sn where
    "notifications c = NotificationConfig_fields sn"
    "NotificationConfig_errors sn = []"
    "\<forall>k. map_of sn k = (case override_for sy get_notification_env_mapping k of
                                   Some v \<Rightarrow> Some v
                                 | None \<Rightarrow> map_of (section_of fd ''notifications'') k)"
    by (auto simp: c Config_fields_def)
  ultimately show ?thesis using m errs c mk by blast
qed




lemmas expand_eval = expand_path_def expanduser_def is_word_char_def













section \<open>Saving and loading again\<close>

lemma map_of_expand_field:
  "map_of (expand_field sy d fld) k =
     (if k = fld then (case map_of d fld of
                         Some (VStr s) \<Rightarrow> Some (VPath (expand_path sy s))
                       | x \<Rightarrow> x)
      else map_of d k)"
  by (simp add: expand_field_def update_conv' split: option.splits pyval.splits)

lemma map_of_expanded_other:
  "k \<noteq> ''projects_dir'' \<Longrightarrow> k \<noteq> ''cache_dir'' \<Longrightarrow>
   map_of (foldl (expand_field sy) d path_field_names) k = map_of d k"
  by (simp add: path_field_names_def map_of_expand_field)

lemma map_of_expanded_projects_dir:
  "map_of (foldl (expand_field sy) d path_field_names) ''projects_dir'' =
     (case map_of d ''projects_dir'' of
        Some (VStr s) \<Rightarrow> Some (VPath (expand_path sy s))
      | x \<Rightarrow> x)"
  by (simp add: path_field_names_def map_of_expand_field)

lemma map_of_expanded_cache_dir:
  "map_of (foldl (expand_field sy) d path_field_names) ''cache_dir'' =
     (case map_of d ''cache_dir'' of
        Some (VStr s) \<Rightarrow> Some (VPath (expand_path sy s))
      | x \<Rightarrow> x)"
  by (simp add: path_field_names_def map_of_expand_field)

lemma section_of_expanded:
  "section_of (foldl (expand_field sy) d path_field_names) ''display'' = section_of d ''display''"
  "section_of (foldl (expand_field sy) d path_field_names) ''notifications''
     = section_of d ''notifications''"
  by (simp_all add: section_of_def map_of_expanded_other)

lemma load_after_save:
  assumes "save_config f0 c0 p = Inr f1"
  shows "load_config_file sy f1 (Some p)
           = (Inr (VDict (foldl (expand_field sy) (save_dict c0) path_field_names)), f1)"
proof -
  from assms have e: "path_exists f1 p = Some True"
    and l: "safe_load f1 p = Loaded (VDict (save_dict c0))"
    by (auto simp: save_config_def split: if_splits)
  have t: "save_dict c0 \<noteq> []" by (simp add: save_dict_def)
  show ?thesis
    using e l t
    by (simp add: load_config_file_def locate_config_file_def read_config_file_def
        expand_paths_in_config_def)
qed

lemma save_dict_excluded:
  "map_of (save_dict c0) ''disable_cache'' = None"
  "map_of (save_dict c0) ''recent_activity_window_hours'' = None"
  "map_of (section_of (save_dict c0) ''display'') ''show_tool_usage'' = None"
  "map_of (section_of (save_dict c0) ''display'') ''theme'' = None"
  by (simp_all add: save_dict_def section_of_def split: option.splits list.splits)

text \<open>
  C10. The dictionary \<open>save_config\<close> writes has no key for \<open>disable_cache\<close>,
  \<open>recent_activity_window_hours\<close>, \<open>display.show_tool_usage\<close> or \<open>display.theme\<close>. So
  when a configuration is saved and the written file is loaded, each of these four fields
  of the loaded configuration for which the environment supplies no override is the schema
  default, whatever its value in the saved configuration was.
\<close>

theorem unsaved_fields_reload_default:
  assumes sv: "save_config f0 c0 p = Inr f1"
    and lc: "load_config sy f1 (Some p) = Inr c"
    and e1: "env_override sy ''PAR_CC_USAGE_DISABLE_CACHE'' ''disable_cache'' = None"
    and e2: "env_override sy ''PAR_CC_USAGE_RECENT_ACTIVITY_WINDOW_HOURS''
               ''recent_activity_window_hours'' = None"
    and e3: "env_override sy ''PAR_CC_USAGE_SHOW_TOOL_USAGE'' ''show_tool_usage'' = None"
    and e4: "env_override sy ''PAR_CC_USAGE_THEME'' ''theme'' = None"
  shows "map_of (save_dict c0) ''disable_cache'' = None
     \<and> map_of (save_dict c0) ''recent_activity_window_hours'' = None
     \<and> map_of (section_of (save_dict c0) ''display'') ''show_tool_usage'' = None
     \<and> map_of (section_of (save_dict c0) ''display'') ''theme'' = None
     \<and> disable_cache c = False
     \<and> recent_activity_window_hours c = 5
     \<and> show_tool_usage (display c) = False
     \<and> theme (display c) = DEFAULT"
proof -
  let ?fd = "foldl (expand_field sy) (save_dict c0) path_field_names"
  note lf = load_after_save [OF sv, of sy]
  from load_config_parts [OF lf lc] obtain d sd where
    m: "merge_overrides sy ?fd = Inr d" and errs: "Config_errors d = []"
    and c: "c = Config_fields sy d"
    and sd_c: "display c = DisplayConfig_fields sd" and sd_errs: "DisplayConfig_errors sd = []"
    and sd_lk: "\<And>k. map_of sd k = (case override_for sy get_display_env_mapping k of
                                   Some v \<Rightarrow> Some v
                                 | None \<Rightarrow> map_of (section_of ?fd ''display'') k)"
    by blast
  have 1: "disable_cache c = False"
    using top_field [OF m, of "''PAR_CC_USAGE_DISABLE_CACHE''" "''disable_cache''" v_bool False]
      errs e1
    by (simp add: c Config_fields_def Config_errors_def proper_all get_top_level_env_mapping_def
        resolve_field_def map_of_expanded_other save_dict_excluded)
  have 2: "recent_activity_window_hours c = 5"
    using top_field [OF m, of "''PAR_CC_USAGE_RECENT_ACTIVITY_WINDOW_HOURS''"
        "''recent_activity_window_hours''" v_int 5] errs e2
    by (simp add: c Config_fields_def Config_errors_def proper_all get_top_level_env_mapping_def
        resolve_field_def map_of_expanded_other save_dict_excluded)
  have 3: "show_tool_usage (display c) = False"
    using sec_field [OF sd_lk display_distinct, of "''PAR_CC_USAGE_SHOW_TOOL_USAGE''"
        "''show_tool_usage''" v_bool False] sd_errs e3
    by (simp add: sd_c DisplayConfig_fields_def DisplayConfig_errors_def proper_all
        get_display_env_mapping_def resolve_field_def section_of_expanded save_dict_excluded)
  have 4: "theme (display c) = DEFAULT"
    using sec_field [OF sd_lk display_distinct, of "''PAR_CC_USAGE_THEME''" "''theme''"
        v_theme DEFAULT] sd_errs e4
    by (simp add: sd_c DisplayConfig_fields_def DisplayConfig_errors_def proper_all
        get_display_env_mapping_def resolve_field_def section_of_expanded save_dict_excluded)
  from 1 2 3 4 save_dict_excluded [of c0] show ?thesis by simp
qed

lemma apply_no_overrides:
  "list_all (\<lambda>(e, k). env_override sy e k = None) m \<Longrightarrow> apply_env_overrides sy d m = d"
  by (induction m arbitrary: d) auto

lemma merge_no_overrides:
  assumes "no_overrides sy" and "map_of fd ''display'' = Some (VDict x)"
    and "map_of fd ''notifications'' = Some (VDict y)"
  shows "merge_overrides sy fd = Inr fd"
proof -
  from assms(1) have t: "\<And>d. apply_env_overrides sy d get_top_level_env_mapping = d"
    and dm: "\<And>d. apply_env_overrides sy d get_display_env_mapping = d"
    and nm: "\<And>d. apply_env_overrides sy d get_notification_env_mapping = d"
    and cl: "apply_claude_config_dir_override sy fd = fd"
    by (simp_all add: no_overrides_def apply_no_overrides apply_claude_config_dir_override_def)
  show ?thesis
    using assms(2,3)
    by (simp add: merge_overrides_def apply_nested_env_overrides_def t dm nm cl update_triv)
qed

lemma all_valid_strs: "all_valid (map (v_str \<circ> VStr) xs) = Inr xs"
  by (induction xs) auto

lemma Path_path_str: "Path (path_str q) = q"
  by (cases q) simp

lemma all_valid_path_strs: "all_valid (map (v_path \<circ> (\<lambda>q. VStr (path_str q))) ps) = Inr ps"
proof (induction ps)
  case Nil
  show ?case by simp
next
  case (Cons q ps)
  then show ?case by (cases q) simp
qed

lemma enum_roundtrip:
  "TimeFormat_of (TimeFormat_value t) = Some t"
  "DisplayMode_of (DisplayMode_value md) = Some md"
  "ThemeType_of (ThemeType_value th) = Some th"
proof -
  show "TimeFormat_of (TimeFormat_value t) = Some t"
    by (cases t) (simp_all add: TimeFormat_of_def)
  show "DisplayMode_of (DisplayMode_value md) = Some md"
    by (cases md) (simp_all add: DisplayMode_of_def)
  show "ThemeType_of (ThemeType_value th) = Some th"
    by (cases th) (simp_all add: ThemeType_of_def)
qed

lemma v_saved:
  "v_opt v_int (opt_int x) = Inr x"
  "v_opt v_str (opt_str y) = Inr y"
  "v_time_format (VStr (TimeFormat_value t)) = Inr t"
  "v_display_mode (VStr (DisplayMode_value md)) = Inr md"
proof -
  show "v_opt v_int (opt_int x) = Inr x" by (cases x) (simp_all add: opt_int_def)
  show "v_opt v_str (opt_str y) = Inr y" by (cases y) (simp_all add: opt_str_def)
  show "v_time_format (VStr (TimeFormat_value t)) = Inr t"
    by (cases t) (simp_all add: TimeFormat_of_def)
  show "v_display_mode (VStr (DisplayMode_value md)) = Inr md"
    by (cases md) (simp_all add: DisplayMode_of_def)
qed

lemma saved_display:
  "DisplayConfig_errors (section_of (save_dict c0) ''display'') = []"
  "DisplayConfig_fields (section_of (save_dict c0) ''display'')
     = (display c0)\<lparr>aggregate_by_project := True, show_tool_usage := False, theme := DEFAULT\<rparr>"
proof -
  show "DisplayConfig_errors (section_of (save_dict c0) ''display'') = []"
    by (simp add: save_dict_def section_of_def DisplayConfig_errors_def field_errors_def
        v_saved enum_roundtrip all_valid_strs)
  show "DisplayConfig_fields (section_of (save_dict c0) ''display'')
     = (display c0)\<lparr>aggregate_by_project := True, show_tool_usage := False, theme := DEFAULT\<rparr>"
    by (cases "display c0")
       (simp add: save_dict_def section_of_def DisplayConfig_fields_def field_value_def
        v_saved enum_roundtrip all_valid_strs)
qed

lemma saved_notifications:
  "NotificationConfig_errors (section_of (save_dict c0) ''notifications'') = []"
  "NotificationConfig_fields (section_of (save_dict c0) ''notifications'') = notifications c0"
proof -
  show "NotificationConfig_errors (section_of (save_dict c0) ''notifications'') = []"
    by (simp add: save_dict_def section_of_def NotificationConfig_errors_def field_errors_def
        v_saved)
  show "NotificationConfig_fields (section_of (save_dict c0) ''notifications'') = notifications c0"
    by (cases "notifications c0")
       (simp add: save_dict_def section_of_def NotificationConfig_fields_def field_value_def
        v_saved)
qed

lemma save_dict_sections:
  "map_of (save_dict c0) ''display'' = Some (VDict (section_of (save_dict c0) ''display''))"
  "map_of (save_dict c0) ''notifications''
     = Some (VDict (section_of (save_dict c0) ''notifications''))"
  by (simp_all add: save_dict_def section_of_def)

lemma save_dict_top:
  "map_of (save_dict c0) ''projects_dir'' = Some (VStr (path_str (projects_dir c0)))"
  "map_of (save_dict c0) ''cache_dir'' = Some (VStr (path_str (cache_dir c0)))"
  "map_of (save_dict c0) ''polling_interval'' = Some (VInt (polling_interval c0))"
  "map_of (save_dict c0) ''timezone'' = Some (VStr (timezone c0))"
  "map_of (save_dict c0) ''token_limit'' = Some (opt_int (token_limit c0))"
  "map_of (save_dict c0) ''projects_dirs''
     = (case projects_dirs c0 of
          Some (q # qs) \<Rightarrow> Some (VList (map (\<lambda>q. VStr (path_str q)) (q # qs)))
        | _ \<Rightarrow> None)"
  by (simp_all add: save_dict_def split: option.splits list.splits)

lemma expanded_lookups:
  fixes sy c0
  defines "fd \<equiv> foldl (expand_field sy) (save_dict c0) path_field_names"
  shows "map_of fd ''projects_dir'' = Some (VPath (expand_path sy (path_str (projects_dir c0))))"
    and "map_of fd ''cache_dir'' = Some (VPath (expand_path sy (path_str (cache_dir c0))))"
    and "map_of fd ''polling_interval'' = Some (VInt (polling_interval c0))"
    and "map_of fd ''timezone'' = Some (VStr (timezone c0))"
    and "map_of fd ''token_limit'' = Some (opt_int (token_limit c0))"
    and "map_of fd ''projects_dirs''
           = (case projects_dirs c0 of
                Some (q # qs) \<Rightarrow> Some (VList (map (\<lambda>q. VStr (path_str q)) (q # qs)))
              | _ \<Rightarrow> None)"
    and "map_of fd ''display'' = Some (VDict (section_of (save_dict c0) ''display''))"
    and "map_of fd ''notifications'' = Some (VDict (section_of (save_dict c0) ''notifications''))"
    and "map_of fd ''disable_cache'' = None"
    and "map_of fd ''recent_activity_window_hours'' = None"
  unfolding fd_def
  by (simp_all add: map_of_expanded_other map_of_expanded_projects_dir map_of_expanded_cache_dir
      save_dict_top save_dict_sections [symmetric] save_dict_excluded)

lemma validate_expanded:
  fixes sy c0
  defines "fd \<equiv> foldl (expand_field sy) (save_dict c0) path_field_names"
  shows "validate_Config sy fd = Inr (reloaded sy c0)"
proof -
  note lk = expanded_lookups [of sy c0, folded fd_def]
  have e: "Config_errors fd = []"
    by (simp add: Config_errors_def field_errors_def lk v_saved v_DisplayConfig_def
        v_NotificationConfig_def saved_display saved_notifications all_valid_path_strs
        split: option.splits list.splits)
  have "Config_fields sy fd = reloaded sy c0"
    by (cases c0)
       (simp add: Config_fields_def field_value_def lk v_saved v_DisplayConfig_def
        v_NotificationConfig_def saved_display saved_notifications all_valid_path_strs
        Path_path_str reloaded_def split: option.splits list.splits)
  with e show ?thesis by (simp add: validate_Config_def)
qed

lemma reload_no_overrides:
  assumes sv: "save_config f0 c0 p = Inr f1" and no: "no_overrides sy"
    and mk: "mkdir_ok f1 (expand_path sy (path_str (cache_dir c0)))"
  shows "load_config sy f1 (Some p) = Inr (reloaded sy c0)"
proof -
  let ?fd = "foldl (expand_field sy) (save_dict c0) path_field_names"
  note lf = load_after_save [OF sv, of sy]
  have m: "merge_overrides sy ?fd = Inr ?fd"
    by (rule merge_no_overrides [OF no expanded_lookups(7) expanded_lookups(8)])
  have "cache_dir (reloaded sy c0) = expand_path sy (path_str (cache_dir c0))"
    by (simp add: reloaded_def)
  with mk show ?thesis
    by (simp add: load_config_def merged_config_dict_def lf m new_Config_def validate_expanded)
qed

section \<open>The round trip\<close>

lemma save_fs0: "save_config fs0 c cfg_path = Inr (fs_saved c)"
  by (simp add: save_config_def fs_saved_def fs0_def)

lemma mkdir_fs_saved: "mkdir_ok (fs_saved c) q"
  by (simp add: fs_saved_def fs0_def)

lemma no_overrides_sys0: "no_overrides sys0"
  by (simp add: no_overrides_def get_top_level_env_mapping_def get_display_env_mapping_def
      get_notification_env_mapping_def env_eval sys0_def)

theorem unsaved_fields_reload_default_witness:
  "save_config fs0 config2 cfg_path = Inr (fs_saved config2)
   \<and> load_config sys0 (fs_saved config2) (Some cfg_path) = Inr (reloaded sys0 config2)
   \<and> disable_cache config2 = True \<and> disable_cache (reloaded sys0 config2) = False
   \<and> recent_activity_window_hours config2 = 9
   \<and> recent_activity_window_hours (reloaded sys0 config2) = 5
   \<and> show_tool_usage (display config2) = True
   \<and> show_tool_usage (display (reloaded sys0 config2)) = False
   \<and> theme (display config2) = DARK
   \<and> theme (display (reloaded sys0 config2)) = DEFAULT"
proof -
  note lc = reload_no_overrides [OF save_fs0 no_overrides_sys0 mkdir_fs_saved]
  have e: "env_override sys0 ''PAR_CC_USAGE_DISABLE_CACHE'' ''disable_cache'' = None"
    "env_override sys0 ''PAR_CC_USAGE_RECENT_ACTIVITY_WINDOW_HOURS''
               ''recent_activity_window_hours'' = None"
    "env_override sys0 ''PAR_CC_USAGE_SHOW_TOOL_USAGE'' ''show_tool_usage'' = None"
    "env_override sys0 ''PAR_CC_USAGE_THEME'' ''theme'' = None"
    by (simp_all add: env_eval sys0_def)
  note r = unsaved_fields_reload_default [OF save_fs0 lc e]
  have o: "disable_cache config2 = True" "recent_activity_window_hours config2 = 9"
    "show_tool_usage (display config2) = True" "theme (display config2) = DARK"
    by (simp_all add: config2_def config1_def)
  from r o lc save_fs0 show ?thesis by simp
qed

text \<open>
  C7, as the code has it. Loading expands the two path fields again and applies the
  environment overrides again. So the round trip returns the saved values under two
  conditions: no environment override is in force, and path expansion leaves the saved
  \<open>projects_dir\<close> and \<open>cache_dir\<close> as they are (they hold no home alias and no
  reference to a set variable). Then loading the written file succeeds whenever the cache
  directory can be created, and every field that was written has its saved value. The key
  \<open>projects_dirs\<close> is left out of the file exactly when the list is unset or empty.
\<close>

theorem save_load_roundtrip:
  assumes sv: "save_config f0 c0 p = Inr f1"
    and no: "no_overrides sy"
    and mk: "mkdir_ok f1 (cache_dir c0)"
    and pd: "expand_path sy (path_str (projects_dir c0)) = projects_dir c0"
    and cd: "expand_path sy (path_str (cache_dir c0)) = cache_dir c0"
  shows "\<exists>c. load_config sy f1 (Some p) = Inr c
           \<and> projects_dir c = projects_dir c0
           \<and> polling_interval c = polling_interval c0
           \<and> timezone c = timezone c0
           \<and> token_limit c = token_limit c0
           \<and> cache_dir c = cache_dir c0
           \<and> show_progress_bars (display c) = show_progress_bars (display c0)
           \<and> show_active_sessions (display c) = show_active_sessions (display c0)
           \<and> update_in_place (display c) = update_in_place (display c0)
           \<and> refresh_interval (display c) = refresh_interval (display c0)
           \<and> time_format (display c) = time_format (display c0)
           \<and> project_name_prefixes (display c) = project_name_prefixes (display c0)
           \<and> display_mode (display c) = display_mode (display c0)
           \<and> show_pricing (display c) = show_pricing (display c0)
           \<and> notifications c = notifications c0
           \<and> (map_of (save_dict c0) ''projects_dirs'' \<noteq> None \<longrightarrow>
                  projects_dirs c = projects_dirs c0)
           \<and> (map_of (save_dict c0) ''projects_dirs'' = None) =
                 (projects_dirs c0 = None \<or> projects_dirs c0 = Some [])"
proof -
  from mk cd have "mkdir_ok f1 (expand_path sy (path_str (cache_dir c0)))" by simp
  from reload_no_overrides [OF sv no this]
  have l: "load_config sy f1 (Some p) = Inr (reloaded sy c0)" .
  have k: "(map_of (save_dict c0) ''projects_dirs'' = None) =
                 (projects_dirs c0 = None \<or> projects_dirs c0 = Some [])"
    by (simp add: save_dict_top split: option.splits list.splits)
  have "map_of (save_dict c0) ''projects_dirs'' \<noteq> None \<longrightarrow>
          projects_dirs (reloaded sy c0) = projects_dirs c0"
    by (simp add: save_dict_top reloaded_def split: option.splits list.splits)
  with l k pd cd show ?thesis by (simp add: reloaded_def)
qed

lemma stable_config1:
  "expand_path sys0 (path_str (projects_dir config1)) = projects_dir config1"
  "expand_path sys0 (path_str (cache_dir config1)) = cache_dir config1"
  by (simp_all add: config1_def expand_eval sys0_def)

theorem save_load_roundtrip_witness:
  "save_config fs0 config1 cfg_path = Inr (fs_saved config1)
   \<and> no_overrides sys0
   \<and> load_config sys0 (fs_saved config1) (Some cfg_path) = Inr config1
   \<and> map_of (save_dict config1) ''projects_dirs'' \<noteq> None
   \<and> map_of (save_dict (config1\<lparr>projects_dirs := Some []\<rparr>)) ''projects_dirs'' = None"
proof -
  from save_load_roundtrip [OF save_fs0 no_overrides_sys0 mkdir_fs_saved stable_config1]
  obtain c where c: "load_config sys0 (fs_saved config1) (Some cfg_path) = Inr c" by blast
  have "reloaded sys0 config1 = config1"
    by (simp add: reloaded_def config1_def default_DisplayConfig_def expand_eval sys0_def)
  with reload_no_overrides [OF save_fs0 no_overrides_sys0 mkdir_fs_saved, of config1] c
  have "load_config sys0 (fs_saved config1) (Some cfg_path) = Inr config1" by simp
  moreover have "map_of (save_dict config1) ''projects_dirs'' \<noteq> None"
    "map_of (save_dict (config1\<lparr>projects_dirs := Some []\<rparr>)) ''projects_dirs'' = None"
    by (simp_all add: save_dict_top config1_def)
  ultimately show ?thesis using save_fs0 no_overrides_sys0 by simp
qed

text \<open>
  C7 as stated fails. A configuration whose \<open>projects_dir\<close> is \<open>~/p\<close> is written as
  \<open>~/p\<close> and read back as \<open>/home/u/p\<close>, with no override in force; and with the polling
  variable set to \<open>20\<close>, a saved polling interval of 5 is read back as 20.
\<close>

theorem save_load_roundtrip_counterexample:
  "save_config fs0 config_tilde cfg_path = Inr (fs_saved config_tilde)
   \<and> no_overrides sys0
   \<and> load_config sys0 (fs_saved config_tilde) (Some cfg_path)
       = Inr (config_tilde\<lparr>projects_dir := Path ''/home/u/p''\<rparr>)
   \<and> projects_dir config_tilde = Path ''~/p''
   \<and> map_of (save_dict config_tilde) ''projects_dir'' = Some (VStr ''~/p'')
   \<and> fst (load_config_file sys0 (fs_saved config_tilde) (Some cfg_path))
       = Inr (VDict (foldl (expand_field sys0) (save_dict config_tilde) path_field_names))
   \<and> map_of (foldl (expand_field sys0) (save_dict config_tilde) path_field_names)
         ''projects_dir'' = Some (VPath (Path ''/home/u/p''))
   \<and> load_config sys_poll20 (fs_saved config1) (Some cfg_path)
       = Inr (config1\<lparr>polling_interval := 20\<rparr>)
   \<and> polling_interval config1 = 5
   \<and> map_of (save_dict config1) ''polling_interval'' = Some (VInt 5)"
proof -
  have "reloaded sys0 config_tilde = config_tilde\<lparr>projects_dir := Path ''/home/u/p''\<rparr>"
    by (simp add: reloaded_def config_tilde_def config1_def default_DisplayConfig_def
        expand_eval sys0_def)
  with reload_no_overrides [OF save_fs0 no_overrides_sys0 mkdir_fs_saved, of config_tilde]
  have 1: "load_config sys0 (fs_saved config_tilde) (Some cfg_path)
       = Inr (config_tilde\<lparr>projects_dir := Path ''/home/u/p''\<rparr>)" by simp
  have 2: "projects_dir config_tilde = Path ''~/p''"
    "map_of (save_dict config_tilde) ''projects_dir'' = Some (VStr ''~/p'')"
    "polling_interval config1 = 5"
    "map_of (save_dict config1) ''polling_interval'' = Some (VInt 5)"
    by (simp_all add: save_dict_top config_tilde_def config1_def)
  define dX where "dX =
     [(''projects_dir'', VPath (Path ''/home/u/.claude/projects'')),
      (''polling_interval'', VInt 5),
      (''timezone'', VStr ''America/Los_Angeles''),
      (''token_limit'', VNone),
      (''cache_dir'', VPath (Path ''/home/u/.cache/par_cc_usage'')),
      (''display'', VDict
         [(''show_progress_bars'', VBool True), (''show_active_sessions'', VBool False),
          (''update_in_place'', VBool True), (''refresh_interval'', VInt 1),
          (''time_format'', VStr ''24h''),
          (''project_name_prefixes'', VList [VStr ''-Users-'', VStr ''-home-'']),
          (''display_mode'', VStr ''normal''), (''show_pricing'', VBool False)]),
      (''notifications'', VDict
         [(''discord_webhook_url'', VNone), (''slack_webhook_url'', VNone),
          (''notify_on_block_completion'', VBool True), (''cooldown_minutes'', VInt 5)]),
      (''projects_dirs'', VList [VStr ''/a'', VStr ''/link_a'', VStr ''/missing'', VStr ''/b''])]"
  have lf: "load_config_file sys_poll20 (fs_saved config1) (Some cfg_path)
              = (Inr (VDict dX), fs_saved config1)"
    by (simp add: load_eval fs_saved_def cfg_path_def save_dict_def config1_def expand_eval
        sys_poll20_def world_eval default_DisplayConfig_def default_NotificationConfig_def
        opt_int_def opt_str_def dX_def)
  have m: "merge_overrides sys_poll20 dX = Inr (dX[1 := (''polling_interval'', VInt 20)])"
    by (simp add: merge_eval env_eval sys_poll20_def world_eval parse_eval str_eval dX_def)
  have v: "new_Config sys_poll20 (fs_saved config1) (dX[1 := (''polling_interval'', VInt 20)])
             = Inr (config1\<lparr>polling_interval := 20\<rparr>)"
    by (simp add: validate_eval world_eval sys_poll20_def fs_saved_def dX_def config1_def
        TimeFormat_of_def DisplayMode_of_def)
  have 3: "load_config sys_poll20 (fs_saved config1) (Some cfg_path)
       = Inr (config1\<lparr>polling_interval := 20\<rparr>)"
    by (simp only: load_config_def merged_config_dict_def lf m v prod.case sum.case
        pyval.case)
  have 4: "fst (load_config_file sys0 (fs_saved config_tilde) (Some cfg_path))
       = Inr (VDict (foldl (expand_field sys0) (save_dict config_tilde) path_field_names))"
    by (simp add: load_after_save [OF save_fs0])
  have 5: "map_of (foldl (expand_field sys0) (save_dict config_tilde) path_field_names)
         ''projects_dir'' = Some (VPath (Path ''/home/u/p''))"
    by (simp add: map_of_expanded_projects_dir save_dict_top config_tilde_def config1_def
        expand_eval sys0_def)
  from 1 2 3 4 5 save_fs0 no_overrides_sys0 show ?thesis by simp
qed

section \<open>Path fields\<close>













section \<open>Validation\<close>




















end
